theory Spec2Isabelle
  imports Main "HOL-Library.Char_ord" "HOL-Library.List_Lexorder"
begin

section \<open>Errors, exceptions and outcomes\<close>

text \<open>
  \<^verbatim>\<open>enum class error_type\<close> of error.hpp. A \<^verbatim>\<open>luco::error\<close> is an
  \<^verbatim>\<open>error_type\<close> with a message; the message (formatted text with an ANSI-coloured
  location) is not modelled, so a \<^verbatim>\<open>luco::error\<close> is its \<^verbatim>\<open>error_type\<close>.
\<close>

datatype error_type =
    Err_none
  | Err_key_not_found
  | Err_filesystem_error
  | Err_parsing_error
  | Err_parsing_error_wrong_type
  | Err_wrong_type
  | Err_wronge_index

text \<open>
  The C++ exceptions that the modelled code can raise: a thrown \<^verbatim>\<open>luco::error\<close>,
  and the two exceptions of the standard library conversions and checked accessors.
\<close>

datatype cpp_exception =
    Luco_error error_type
  | Std_out_of_range
  | Std_invalid_argument

text \<open>
  What a call does: it returns, it throws, it reaches \<^verbatim>\<open>std::terminate\<close> (an
  exception leaving a \<^verbatim>\<open>noexcept\<close> function), it has undefined behaviour
  (\<^verbatim>\<open>top()\<close> of an empty stack), or it stops at an \<^verbatim>\<open>assert\<close> whose condition is
  false, which calls \<^verbatim>\<open>abort\<close>. The sources include \<^verbatim>\<open><cassert>\<close> and do not define
  \<^verbatim>\<open>NDEBUG\<close>: the model is of the program with its assertions compiled in. An
  \<^verbatim>\<open>expected<T, error>\<close> that is returned is the sum \<open>error_type + T\<close>, \<open>Inl\<close>
  being \<^verbatim>\<open>unexpected(error)\<close>.
\<close>

datatype 'a outcome =
    Returns 'a
  | Throws cpp_exception
  | Terminate
  | Undefined_behaviour
  | Assertion_fails

text \<open>An exception that leaves a function declared \<^verbatim>\<open>noexcept\<close> calls \<^verbatim>\<open>std::terminate\<close>.\<close>

fun noexcept :: "'a outcome \<Rightarrow> 'a outcome" where
  "noexcept (Throws e) = Terminate"
| "noexcept r = r"

section \<open>Scalars: class value\<close>

datatype value_type =
    VT_none
  | VT_string
  | VT_number
  | VT_integer
  | VT_double_t
  | VT_null
  | VT_boolean
  | VT_temp_escape_type
  | VT_unknown

text \<open>
  \<^verbatim>\<open>std::variant<std::string, double, int64_t, bool, null_type, monostate>\<close>.
  Floating point is not modelled: \<open>'d\<close> stands for \<^verbatim>\<open>double\<close>, and the library
  functions on it (\<^verbatim>\<open>std::to_string\<close>, \<^verbatim>\<open>strtod\<close>, the conversion from
  \<^verbatim>\<open>int64_t\<close> and \<^verbatim>\<open>+\<close>) are parameters of the functions that call them.
  An \<^verbatim>\<open>int64_t\<close> is the integer it stands for, between \<open>- 2 ^ 63\<close> and
  \<open>2 ^ 63 - 1\<close>: the modelled code stores, converts and prints such numbers and does
  no arithmetic on them, and the one place where the range matters, \<^verbatim>\<open>std::stoll\<close>,
  has its range test written out.
\<close>

datatype 'd value_type_variant =
    V_string string
  | V_double 'd
  | V_int64 int
  | V_bool bool
  | V_null_type
  | V_monostate

text \<open>The members \<^verbatim>\<open>_value\<close> and \<^verbatim>\<open>_type\<close> of \<^verbatim>\<open>class value\<close>.\<close>

record 'd "value" =
  val_value :: "'d value_type_variant"
  val_type :: value_type

text \<open>
  The types accepted by \<^verbatim>\<open>value::set_state(const val_type&)\<close>
  (\<^verbatim>\<open>is_allowed_value_type\<close>): \<^verbatim>\<open>bool\<close>, an arithmetic type (floating point
  or integral, the latter stored as \<^verbatim>\<open>int64_t\<close>), a string (\<^verbatim>\<open>std::string\<close>
  or \<^verbatim>\<open>const char*\<close>) and \<^verbatim>\<open>null_type\<close>.
\<close>

datatype 'd allowed_value =
    A_bool bool
  | A_floating 'd
  | A_integral int
  | A_string string
  | A_null

fun set_state :: "'d allowed_value \<Rightarrow> 'd value" where
  "set_state (A_bool b) = \<lparr>val_value = V_bool b, val_type = VT_boolean\<rparr>"
| "set_state (A_floating d) = \<lparr>val_value = V_double d, val_type = VT_double_t\<rparr>"
| "set_state (A_integral i) = \<lparr>val_value = V_int64 i, val_type = VT_integer\<rparr>"
| "set_state (A_string s) = \<lparr>val_value = V_string s, val_type = VT_string\<rparr>"
| "set_state A_null = \<lparr>val_value = V_null_type, val_type = VT_null\<rparr>"

text \<open>\<^verbatim>\<open>value() noexcept : _value(monostate()), _type(value_type::none)\<close>\<close>

definition value_empty :: "'d value" where
  "value_empty = \<lparr>val_value = V_monostate, val_type = VT_none\<rparr>"

definition value_is_string :: "'d value \<Rightarrow> bool" where
  "value_is_string v = (case val_value v of V_string _ \<Rightarrow> True | _ \<Rightarrow> False)"

definition value_is_double :: "'d value \<Rightarrow> bool" where
  "value_is_double v = (case val_value v of V_double _ \<Rightarrow> True | _ \<Rightarrow> False)"

definition value_is_integer :: "'d value \<Rightarrow> bool" where
  "value_is_integer v = (case val_value v of V_int64 _ \<Rightarrow> True | _ \<Rightarrow> False)"

definition value_is_number :: "'d value \<Rightarrow> bool" where
  "value_is_number v = (value_is_double v \<or> value_is_integer v)"

definition value_is_boolean :: "'d value \<Rightarrow> bool" where
  "value_is_boolean v = (case val_value v of V_bool _ \<Rightarrow> True | _ \<Rightarrow> False)"

definition value_is_null :: "'d value \<Rightarrow> bool" where
  "value_is_null v = (case val_value v of V_null_type \<Rightarrow> True | _ \<Rightarrow> False)"

text \<open>
  \<^verbatim>\<open>value::try_as_string\<close> and \<^verbatim>\<open>value::try_as_number\<close>; the latter converts
  an \<^verbatim>\<open>int64_t\<close> payload to \<^verbatim>\<open>double\<close> on return (\<open>of_int64\<close>).
\<close>

definition value_try_as_string :: "'d value \<Rightarrow> error_type + string" where
  "value_try_as_string v = (case val_value v of V_string s \<Rightarrow> Inr s | _ \<Rightarrow> Inl Err_wrong_type)"

definition value_try_as_number :: "(int \<Rightarrow> 'd) \<Rightarrow> 'd value \<Rightarrow> error_type + 'd" where
  "value_try_as_number of_int64 v =
     (if \<not> value_is_number v then Inl Err_wrong_type
      else case val_value v of
             V_double d \<Rightarrow> Inr d
           | V_int64 i \<Rightarrow> Inr (of_int64 i)
           | _ \<Rightarrow> Inl Err_wrong_type)"

text \<open>The throwing forms \<^verbatim>\<open>as_string\<close> and \<^verbatim>\<open>as_number\<close>: \<^verbatim>\<open>throw ok.error()\<close>.\<close>

definition throw_if_not_ok :: "error_type + 'a \<Rightarrow> 'a outcome" where
  "throw_if_not_ok ok = (case ok of Inl e \<Rightarrow> Throws (Luco_error e) | Inr x \<Rightarrow> Returns x)"

definition value_as_string :: "'d value \<Rightarrow> string outcome" where
  "value_as_string v = throw_if_not_ok (value_try_as_string v)"

definition value_as_number :: "(int \<Rightarrow> 'd) \<Rightarrow> 'd value \<Rightarrow> 'd outcome" where
  "value_as_number of_int64 v = throw_if_not_ok (value_try_as_number of_int64 v)"

subsection \<open>value::stringify\<close>

text \<open>
  \<^verbatim>\<open>str[i]\<close> of a \<^verbatim>\<open>std::string\<close>: the character at \<open>i\<close>, and the terminating
  \<^verbatim>\<open>'\0'\<close> at \<open>i = size\<close>.
\<close>

definition str_at :: "string \<Rightarrow> nat \<Rightarrow> char" where
  "str_at s i = (if i < length s then s ! i else CHR 0x00)"

text \<open>
  The loop of the lambda \<^verbatim>\<open>pop_zeros_at_the_end\<close>:
  \<^verbatim>\<open>for (size_t i = str.size() - 1;; i--)\<close>, with the local \<^verbatim>\<open>found_zero\<close>.
  \<^verbatim>\<open>str.pop_back()\<close> is \<open>butlast\<close>. Each round reads \<^verbatim>\<open>str[i]\<close> of the
  string as shortened so far.
\<close>

fun pop_zeros_loop :: "string \<Rightarrow> bool \<Rightarrow> nat \<Rightarrow> string" where
  "pop_zeros_loop str found_zero i =
     (if str_at str i = CHR ''0'' \<and> \<not> found_zero then
        (if i = 0 then str else pop_zeros_loop str True (i - 1))
      else if str_at str i = CHR ''0'' \<and> found_zero then
        (if i = 0 then butlast str else pop_zeros_loop (butlast str) found_zero (i - 1))
      else if found_zero then
        (if i = 0 then butlast str else pop_zeros_loop (butlast str) False (i - 1))
      else str)"

text \<open>
  The whole lambda, on \<^verbatim>\<open>str = std::to_string(double)\<close>, which is never empty
  (\<^verbatim>\<open>"%f"\<close> prints at least \<^verbatim>\<open>0.000000\<close>).
\<close>

definition pop_zeros_at_the_end :: "string \<Rightarrow> string" where
  "pop_zeros_at_the_end str =
     (let s = pop_zeros_loop str False (length str - 1)
      in if s \<noteq> [] \<and> last s = CHR ''.'' then s @ ''0'' else s)"

text \<open>\<^verbatim>\<open>std::to_string(int64_t)\<close>: the decimal digits, with a minus sign when negative.\<close>

definition digit_char :: "nat \<Rightarrow> char" where
  "digit_char n = char_of (of_char CHR ''0'' + n)"

fun digits_of_nat :: "nat \<Rightarrow> string" where
  "digits_of_nat n =
     (if n < 10 then [digit_char n] else digits_of_nat (n div 10) @ [digit_char (n mod 10)])"

definition to_string_int64 :: "int \<Rightarrow> string" where
  "to_string_int64 w =
     (if w < 0 then CHR ''-'' # digits_of_nat (nat (- w)) else digits_of_nat (nat w))"

text \<open>
  \<^verbatim>\<open>value::stringify\<close>. The parameter \<open>to_string_double\<close> is
  \<^verbatim>\<open>std::to_string(double)\<close>, the \<^verbatim>\<open>"%f"\<close> rendering with six digits after the
  point.
\<close>

definition stringify :: "('d \<Rightarrow> string) \<Rightarrow> 'd value \<Rightarrow> string" where
  "stringify to_string_double v =
     (case val_value v of
        V_double d \<Rightarrow> pop_zeros_at_the_end (to_string_double d)
      | V_int64 i \<Rightarrow> to_string_int64 i
      | V_string s \<Rightarrow> s
      | V_bool b \<Rightarrow> (if b then ''true'' else ''false'')
      | V_null_type \<Rightarrow> ''null''
      | V_monostate \<Rightarrow> '''')"

section \<open>Type inference: luco_simple_types\<close>

datatype boolean_types = Boolean_none | Boolean_true | Boolean_false

datatype number_types = Number_none | Number_float | Number_int

text \<open>\<^verbatim>\<open>std::isdigit\<close> in the C locale.\<close>

definition isdigit :: "char \<Rightarrow> bool" where
  "isdigit c = (CHR ''0'' \<le> c \<and> c \<le> CHR ''9'')"

text \<open>
  The \<^verbatim>\<open>std::all_of\<close> of \<^verbatim>\<open>is_number\<close> with its capturing lambda: the result of
  \<^verbatim>\<open>all_of\<close> (which stops at the first character refused) and the final
  \<^verbatim>\<open>has_decimal\<close>.
\<close>

fun is_number_all_of :: "string \<Rightarrow> bool \<Rightarrow> bool \<times> bool" where
  "is_number_all_of [] has_decimal = (True, has_decimal)"
| "is_number_all_of (c # cs) has_decimal =
     (if isdigit c then is_number_all_of cs has_decimal
      else if c = CHR ''.'' \<and> \<not> has_decimal then is_number_all_of cs True
      else (False, has_decimal))"

definition is_number :: "string \<Rightarrow> number_types" where
  "is_number data =
     (if data = [] then Number_none
      else let (number, has_decimal) = is_number_all_of data False
           in if \<not> number then Number_none
              else if \<not> has_decimal then Number_int
              else Number_float)"

definition is_boolean :: "string \<Rightarrow> boolean_types" where
  "is_boolean data =
     (if data = ''on'' \<or> data = ''true'' then Boolean_true
      else if data = ''off'' \<or> data = ''false'' then Boolean_false
      else Boolean_none)"

definition is_null :: "string \<Rightarrow> bool" where
  "is_null data = (data = ''null'')"

text \<open>
  \<^verbatim>\<open>std::stoll\<close> and \<^verbatim>\<open>std::stod\<close> on the lexemes \<^verbatim>\<open>get_type\<close> passes them:
  no white space and no sign. \<^verbatim>\<open>stoll\<close> converts the leading digits, throws
  \<^verbatim>\<open>std::invalid_argument\<close> when there is none and \<^verbatim>\<open>std::out_of_range\<close> when the
  number exceeds \<^verbatim>\<open>LLONG_MAX\<close>. \<^verbatim>\<open>stod\<close> throws \<^verbatim>\<open>std::invalid_argument\<close>
  when the lexeme has no digit to convert; otherwise the conversion is the parameter
  \<open>strtod\<close>, \<open>None\<close> when it reports \<^verbatim>\<open>ERANGE\<close>.
\<close>

definition digit_val :: "char \<Rightarrow> int" where
  "digit_val c = of_char c - of_char CHR ''0''"

definition int_of_digits :: "string \<Rightarrow> int" where
  "int_of_digits ds = foldl (\<lambda>n c. 10 * n + digit_val c) 0 ds"

definition LLONG_MAX :: int where
  "LLONG_MAX = 9223372036854775807"

definition stoll :: "string \<Rightarrow> int outcome" where
  "stoll s =
     (let ds = takeWhile isdigit s
      in if ds = [] then Throws Std_invalid_argument
         else if int_of_digits ds > LLONG_MAX then Throws Std_out_of_range
         else Returns (int_of_digits ds))"

definition stod :: "(string \<Rightarrow> 'd option) \<Rightarrow> string \<Rightarrow> 'd outcome" where
  "stod strtod s =
     (if \<not> (\<exists>c \<in> set s. isdigit c) then Throws Std_invalid_argument
      else case strtod s of
             None \<Rightarrow> Throws Std_out_of_range
           | Some d \<Rightarrow> Returns d)"

text \<open>\<^verbatim>\<open>std::variant<std::string, bool, double, int64_t, null_type>\<close>, the result of \<^verbatim>\<open>get_type\<close>.\<close>

datatype 'd typed_value =
    T_string string
  | T_bool bool
  | T_double 'd
  | T_int64 int
  | T_null

text \<open>A function applied to what a call returns; the other outcomes pass unchanged.\<close>

fun map_returns :: "('a \<Rightarrow> 'b) \<Rightarrow> 'a outcome \<Rightarrow> 'b outcome" where
  "map_returns f (Returns x) = Returns (f x)"
| "map_returns f (Throws e) = Throws e"
| "map_returns f Terminate = Terminate"
| "map_returns f Undefined_behaviour = Undefined_behaviour"
| "map_returns f Assertion_fails = Assertion_fails"

text \<open>
  \<^verbatim>\<open>luco_simple_types::get_type\<close>. The \<^verbatim>\<open>case none\<close> of its two switches is
  \<^verbatim>\<open>assert(false && "...")\<close>; the test before each switch keeps them from being
  reached.
\<close>

definition get_type :: "(string \<Rightarrow> 'd option) \<Rightarrow> string \<Rightarrow> 'd typed_value outcome" where
  "get_type strtod raw_value =
     (if is_null raw_value then Returns T_null
      else if is_number raw_value \<noteq> Number_none then
        (case is_number raw_value of
           Number_int \<Rightarrow> map_returns T_int64 (stoll raw_value)
         | Number_float \<Rightarrow> map_returns T_double (stod strtod raw_value)
         | Number_none \<Rightarrow> Assertion_fails)
      else if is_boolean raw_value \<noteq> Boolean_none then
        (case is_boolean raw_value of
           Boolean_true \<Rightarrow> Returns (T_bool True)
         | Boolean_false \<Rightarrow> Returns (T_bool False)
         | Boolean_none \<Rightarrow> Assertion_fails)
      else Returns (T_string raw_value))"

section \<open>The document tree: node, object, array\<close>

text \<open>
  A \<^verbatim>\<open>node\<close> has one member,
  \<^verbatim>\<open>std::variant<std::shared_ptr<value>, std::shared_ptr<array>, std::shared_ptr<object>> _node\<close>,
  and no copy constructor or copy assignment of its own: copying a node copies the
  \<^verbatim>\<open>shared_ptr\<close>, and both copies then refer to one value, array or object. The
  model is therefore an explicit store. An address is an index into the store of its
  kind, \<^verbatim>\<open>make_shared\<close> appends a cell, and a node is the tagged address it holds.
  A \<^verbatim>\<open>shared_ptr\<close> is never null and keeps its cell alive, so the addresses a
  program holds are below the length of their store. Cells are not freed in the model,
  and a temporary whose last \<^verbatim>\<open>shared_ptr\<close> dies before the call returns is not
  allocated in it.
\<close>

type_synonym addr = nat

datatype node_type = Object_type | Array_type | Value_type

datatype node = Value_ptr addr | Array_ptr addr | Object_ptr addr

text \<open>
  \<^verbatim>\<open>luco_object = std::map<std::string, node>\<close>: the entries in the order of their
  keys, the order \<^verbatim>\<open>std::map\<close> iterates in. \<^verbatim>\<open>luco_array = std::vector<node>\<close>.
\<close>

type_synonym luco_object = "(string \<times> node) list"

type_synonym luco_array = "node list"

record 'd heap =
  values_of :: "'d value list"
  arrays_of :: "luco_array list"
  objects_of :: "luco_object list"

definition empty_heap :: "'d heap" where
  "empty_heap = \<lparr>values_of = [], arrays_of = [], objects_of = []\<rparr>"

definition make_shared_value :: "'d heap \<Rightarrow> 'd value \<Rightarrow> node \<times> 'd heap" where
  "make_shared_value h v = (Value_ptr (length (values_of h)), h\<lparr>values_of := values_of h @ [v]\<rparr>)"

definition make_shared_array :: "'d heap \<Rightarrow> node \<times> 'd heap" where
  "make_shared_array h = (Array_ptr (length (arrays_of h)), h\<lparr>arrays_of := arrays_of h @ [[]]\<rparr>)"

definition make_shared_object :: "'d heap \<Rightarrow> node \<times> 'd heap" where
  "make_shared_object h = (Object_ptr (length (objects_of h)), h\<lparr>objects_of := objects_of h @ [[]]\<rparr>)"

subsection \<open>class object and class array\<close>

text \<open>
  \<^verbatim>\<open>_object[key] = element\<close> on the \<^verbatim>\<open>std::map\<close>: the entry of an equal key is
  assigned, otherwise a new entry is placed in key order. The function is the same for
  every mapped type.
\<close>

fun map_insert :: "string \<Rightarrow> 'v \<Rightarrow> (string \<times> 'v) list \<Rightarrow> (string \<times> 'v) list" where
  "map_insert k v [] = [(k, v)]"
| "map_insert k v ((k', v') # m) =
     (if k < k' then (k, v) # (k', v') # m
      else if k = k' then (k, v) # m
      else (k', v') # map_insert k v m)"

text \<open>\<^verbatim>\<open>_object.find(key)\<close>: the node of the entry, \<open>None\<close> for \<^verbatim>\<open>end()\<close>.\<close>

definition map_find :: "luco_object \<Rightarrow> string \<Rightarrow> node option" where
  "map_find m key = map_of m key"

text \<open>\<^verbatim>\<open>object::insert\<close> and \<^verbatim>\<open>array::push_back\<close> on the cell at an address.\<close>

definition object_insert :: "'d heap \<Rightarrow> addr \<Rightarrow> string \<Rightarrow> node \<Rightarrow> 'd heap" where
  "object_insert h p key element =
     h\<lparr>objects_of := (objects_of h)[p := map_insert key element (objects_of h ! p)]\<rparr>"

definition array_push_back :: "'d heap \<Rightarrow> addr \<Rightarrow> node \<Rightarrow> 'd heap" where
  "array_push_back h p element =
     h\<lparr>arrays_of := (arrays_of h)[p := arrays_of h ! p @ [element]]\<rparr>"

text \<open>
  A \<^verbatim>\<open>node&\<close> into a container: the entry of a key in an object, or the element at
  an index of an array. Reading it gives the node stored there; assigning through it
  replaces that node.
\<close>

datatype node_ref = Object_slot addr string | Array_slot addr nat

fun read_ref :: "'d heap \<Rightarrow> node_ref \<Rightarrow> node option" where
  "read_ref h (Object_slot p key) = map_find (objects_of h ! p) key"
| "read_ref h (Array_slot p i) =
     (if i < length (arrays_of h ! p) then Some (arrays_of h ! p ! i) else None)"

fun write_ref :: "'d heap \<Rightarrow> node_ref \<Rightarrow> node \<Rightarrow> 'd heap" where
  "write_ref h (Object_slot p key) n = object_insert h p key n"
| "write_ref h (Array_slot p i) n =
     h\<lparr>arrays_of := (arrays_of h)[p := (arrays_of h ! p)[i := n]]\<rparr>"

text \<open>\<^verbatim>\<open>array::at\<close> is \<^verbatim>\<open>std::vector::at\<close>: it throws \<^verbatim>\<open>std::out_of_range\<close>.\<close>

definition array_at :: "'d heap \<Rightarrow> addr \<Rightarrow> nat \<Rightarrow> node_ref outcome" where
  "array_at h p i =
     (if i < length (arrays_of h ! p) then Returns (Array_slot p i) else Throws Std_out_of_range)"

subsection \<open>class node: kinds and casts\<close>

text \<open>\<^verbatim>\<open>node::node(enum node_type type)\<close>\<close>

fun node_of_type :: "'d heap \<Rightarrow> node_type \<Rightarrow> node \<times> 'd heap" where
  "node_of_type h Value_type = make_shared_value h value_empty"
| "node_of_type h Array_type = make_shared_array h"
| "node_of_type h Object_type = make_shared_object h"

fun is_value :: "node \<Rightarrow> bool" where
  "is_value (Value_ptr _) = True"
| "is_value _ = False"

fun is_array :: "node \<Rightarrow> bool" where
  "is_array (Array_ptr _) = True"
| "is_array _ = False"

fun is_object :: "node \<Rightarrow> bool" where
  "is_object (Object_ptr _) = True"
| "is_object _ = False"

definition type_of_node :: "node \<Rightarrow> node_type" where
  "type_of_node n =
     (if is_value n then Value_type else if is_array n then Array_type else Object_type)"

fun try_as_value :: "node \<Rightarrow> error_type + addr" where
  "try_as_value (Value_ptr p) = Inr p"
| "try_as_value _ = Inl Err_wrong_type"

fun try_as_array :: "node \<Rightarrow> error_type + addr" where
  "try_as_array (Array_ptr p) = Inr p"
| "try_as_array _ = Inl Err_wrong_type"

fun try_as_object :: "node \<Rightarrow> error_type + addr" where
  "try_as_object (Object_ptr p) = Inr p"
| "try_as_object _ = Inl Err_wrong_type"

definition as_value :: "node \<Rightarrow> addr outcome" where
  "as_value n = throw_if_not_ok (try_as_value n)"

definition as_array :: "node \<Rightarrow> addr outcome" where
  "as_array n = throw_if_not_ok (try_as_array n)"

definition as_object :: "node \<Rightarrow> addr outcome" where
  "as_object n = throw_if_not_ok (try_as_object n)"

subsection \<open>Construction, set, insert and push_back\<close>

text \<open>
  The arguments of the templates over \<^verbatim>\<open>container_or_node_type\<close>. An
  \<^verbatim>\<open>is_allowed_node_type\<close> is a scalar type, a \<^verbatim>\<open>class value\<close> or a
  \<^verbatim>\<open>node\<close>; a container holds such elements, in the order its iterator gives
  them; an \<^verbatim>\<open>is_allowed_variant\<close> holds one of them.
\<close>

datatype 'd allowed_node =
    N_scalar "'d allowed_value"
  | N_value "'d value"
  | N_node node

datatype 'd container_or_node =
    C_value_container "'d allowed_node list"
  | C_key_value_container "(string \<times> 'd allowed_node) list"
  | C_allowed "'d allowed_node"
  | C_variant "'d allowed_node"

text \<open>\<^verbatim>\<open>handle_allowed_node_types\<close>: a \<^verbatim>\<open>std::variant<class value, luco::node>\<close>.\<close>

fun handle_allowed_node_types :: "'d allowed_node \<Rightarrow> 'd value + node" where
  "handle_allowed_node_types (N_scalar a) = Inl (set_state a)"
| "handle_allowed_node_types (N_value v) = Inl v"
| "handle_allowed_node_types (N_node n) = Inr n"

text \<open>
  The branches \<^verbatim>\<open>is_allowed_node_type\<close> and \<^verbatim>\<open>is_allowed_variant\<close> of
  \<^verbatim>\<open>setting_allowed_node_type\<close>: a value gets a cell of its own
  (\<^verbatim>\<open>_node = std::make_shared<class value>(...)\<close>), a node hands over its pointer
  (\<^verbatim>\<open>_node = std::get<luco::node>(n)._node\<close>).
\<close>

definition node_of_allowed :: "'d heap \<Rightarrow> 'd allowed_node \<Rightarrow> node \<times> 'd heap" where
  "node_of_allowed h a =
     (case handle_allowed_node_types a of
        Inl v \<Rightarrow> make_shared_value h v
      | Inr n \<Rightarrow> (n, h))"

text \<open>
  \<^verbatim>\<open>node::insert\<close> and \<^verbatim>\<open>node::push_back\<close> called with a \<^verbatim>\<open>node\<close>:
  \<^verbatim>\<open>luco::node(value)\<close> is then a copy of the argument. The result is the
  \<^verbatim>\<open>expected<std::reference_wrapper<node>, error>\<close> and the store.
\<close>

definition insert_node :: "'d heap \<Rightarrow> node \<Rightarrow> string \<Rightarrow> node \<Rightarrow> (error_type + node_ref) \<times> 'd heap" where
  "insert_node h this key n =
     (case try_as_object this of
        Inl e \<Rightarrow> (Inl Err_wrong_type, h)
      | Inr p \<Rightarrow> (Inr (Object_slot p key), object_insert h p key n))"

definition push_back_node :: "'d heap \<Rightarrow> node \<Rightarrow> node \<Rightarrow> (error_type + node_ref) \<times> 'd heap" where
  "push_back_node h this n =
     (case try_as_array this of
        Inl e \<Rightarrow> (Inl Err_wrong_type, h)
      | Inr p \<Rightarrow> (Inr (Array_slot p (length (arrays_of h ! p))), array_push_back h p n))"

text \<open>
  The loops of the container branches of \<^verbatim>\<open>setting_allowed_node_type\<close>: each
  element becomes a node (\<^verbatim>\<open>node(std::get<class value>(v))\<close> for a value, the node
  itself otherwise) and is added to \<^verbatim>\<open>this\<close>; the \<^verbatim>\<open>expected\<close> that
  \<^verbatim>\<open>push_back\<close> and \<^verbatim>\<open>insert\<close> return is dropped.
\<close>

fun push_back_all :: "'d heap \<Rightarrow> node \<Rightarrow> 'd allowed_node list \<Rightarrow> 'd heap" where
  "push_back_all h this [] = h"
| "push_back_all h this (val # rest) =
     (let (n, h1) = node_of_allowed h val;
          (ok, h2) = push_back_node h1 this n
      in push_back_all h2 this rest)"

fun insert_all :: "'d heap \<Rightarrow> node \<Rightarrow> (string \<times> 'd allowed_node) list \<Rightarrow> 'd heap" where
  "insert_all h this [] = h"
| "insert_all h this ((key, val) # rest) =
     (let (n, h1) = node_of_allowed h val;
          (ok, h2) = insert_node h1 this key n
      in insert_all h2 this rest)"

text \<open>
  \<^verbatim>\<open>setting_allowed_node_type\<close>: the new \<^verbatim>\<open>_node\<close> of \<^verbatim>\<open>this\<close> and the store.
  The old \<^verbatim>\<open>_node\<close> is not read. The converting constructor
  \<^verbatim>\<open>node::node(const container_or_node_type&)\<close> is this function on a new node.
\<close>

fun setting_allowed_node_type :: "'d heap \<Rightarrow> 'd container_or_node \<Rightarrow> node \<times> 'd heap" where
  "setting_allowed_node_type h (C_value_container node_value) =
     (let (this, h1) = make_shared_array h in (this, push_back_all h1 this node_value))"
| "setting_allowed_node_type h (C_key_value_container node_value) =
     (let (this, h1) = make_shared_object h in (this, insert_all h1 this node_value))"
| "setting_allowed_node_type h (C_allowed node_value) = node_of_allowed h node_value"
| "setting_allowed_node_type h (C_variant node_value) = node_of_allowed h node_value"

text \<open>
  \<^verbatim>\<open>node::insert(key, value)\<close>: the kind is checked first, then
  \<^verbatim>\<open>obj->insert(key, luco::node(value))\<close>.
\<close>

definition node_insert ::
  "'d heap \<Rightarrow> node \<Rightarrow> string \<Rightarrow> 'd container_or_node \<Rightarrow> (error_type + node_ref) \<times> 'd heap" where
  "node_insert h this key v =
     (case try_as_object this of
        Inl e \<Rightarrow> (Inl Err_wrong_type, h)
      | Inr p \<Rightarrow>
          (let (n, h1) = setting_allowed_node_type h v
           in (Inr (Object_slot p key), object_insert h1 p key n)))"

text \<open>
  \<^verbatim>\<open>node::push_back(value)\<close>: the local \<^verbatim>\<open>luco::node n(value)\<close> is built before
  the kind is checked and dies with the call; the element appended is a second
  \<^verbatim>\<open>luco::node(value)\<close>, and the reference returned is \<^verbatim>\<open>arr->back()\<close>.
\<close>

definition node_push_back ::
  "'d heap \<Rightarrow> node \<Rightarrow> 'd container_or_node \<Rightarrow> (error_type + node_ref) \<times> 'd heap" where
  "node_push_back h this v =
     (case try_as_array this of
        Inl e \<Rightarrow> (Inl Err_wrong_type, h)
      | Inr p \<Rightarrow>
          (let (n, h1) = setting_allowed_node_type h v
           in (Inr (Array_slot p (length (arrays_of h1 ! p))), array_push_back h1 p n)))"

text \<open>\<^verbatim>\<open>node::set\<close> on the node a reference designates.\<close>

definition set_ref :: "'d heap \<Rightarrow> node_ref \<Rightarrow> 'd container_or_node \<Rightarrow> 'd heap" where
  "set_ref h r node_value =
     (let (n, h1) = setting_allowed_node_type h node_value in write_ref h1 r n)"

subsection \<open>Access\<close>

definition contains :: "'d heap \<Rightarrow> node \<Rightarrow> string \<Rightarrow> bool" where
  "contains h this key =
     (case try_as_object this of
        Inl e \<Rightarrow> False
      | Inr p \<Rightarrow> map_find (objects_of h ! p) key \<noteq> None)"

text \<open>\<^verbatim>\<open>node::at(const std::string&)\<close> and \<^verbatim>\<open>node::at(const size_t)\<close>, which throw.\<close>

definition at_key :: "'d heap \<Rightarrow> node \<Rightarrow> string \<Rightarrow> node_ref outcome" where
  "at_key h this object_key =
     (case as_object this of
        Returns p \<Rightarrow>
          (if map_find (objects_of h ! p) object_key = None
           then Throws (Luco_error Err_key_not_found)
           else Returns (Object_slot p object_key))
      | Throws e \<Rightarrow> Throws e
      | Terminate \<Rightarrow> Terminate
      | Undefined_behaviour \<Rightarrow> Undefined_behaviour
      | Assertion_fails \<Rightarrow> Assertion_fails)"

definition at_index :: "'d heap \<Rightarrow> node \<Rightarrow> nat \<Rightarrow> node_ref outcome" where
  "at_index h this array_index =
     (case as_array this of
        Returns p \<Rightarrow>
          (if array_index \<ge> length (arrays_of h ! p)
           then Throws (Luco_error Err_key_not_found)
           else array_at h p array_index)
      | Throws e \<Rightarrow> Throws e
      | Terminate \<Rightarrow> Terminate
      | Undefined_behaviour \<Rightarrow> Undefined_behaviour
      | Assertion_fails \<Rightarrow> Assertion_fails)"

text \<open>
  \<^verbatim>\<open>node::try_at(const std::string&) const noexcept\<close> and
  \<^verbatim>\<open>node::try_at(const size_t) const noexcept\<close>. The second returns
  \<^verbatim>\<open>std::ref(arr.value()->at(array_index))\<close> with no test of the index before it.
\<close>

definition try_at_key :: "'d heap \<Rightarrow> node \<Rightarrow> string \<Rightarrow> (error_type + node_ref) outcome" where
  "try_at_key h this object_key =
     noexcept
       (case try_as_object this of
          Inl e \<Rightarrow> Returns (Inl e)
        | Inr p \<Rightarrow>
            (if map_find (objects_of h ! p) object_key = None
             then Returns (Inl Err_key_not_found)
             else Returns (Inr (Object_slot p object_key))))"

definition try_at_index :: "'d heap \<Rightarrow> node \<Rightarrow> nat \<Rightarrow> (error_type + node_ref) outcome" where
  "try_at_index h this array_index =
     noexcept
       (case try_as_array this of
          Inl e \<Rightarrow> Returns (Inl Err_key_not_found)
        | Inr p \<Rightarrow> map_returns Inr (array_at h p array_index))"

subsection \<open>node::operator+\<close>

text \<open>
  The two loops of the object branch and of the array branch:
  \<^verbatim>\<open>new_node.insert(key, node)\<close> and \<^verbatim>\<open>new_node.push_back(node)\<close> for every entry
  of the operand, in the order of its iterator.
\<close>

fun plus_insert_loop :: "'d heap \<Rightarrow> node \<Rightarrow> luco_object \<Rightarrow> 'd heap" where
  "plus_insert_loop h new_node [] = h"
| "plus_insert_loop h new_node ((key, n) # rest) =
     (let (ok, h1) = insert_node h new_node key n in plus_insert_loop h1 new_node rest)"

fun plus_push_back_loop :: "'d heap \<Rightarrow> node \<Rightarrow> luco_array \<Rightarrow> 'd heap" where
  "plus_push_back_loop h new_node [] = h"
| "plus_push_back_loop h new_node (n # rest) =
     (let (ok, h1) = push_back_node h new_node n in plus_push_back_loop h1 new_node rest)"

text \<open>
  The scalar branch. \<^verbatim>\<open>new_node = a + b\<close> assigns a \<^verbatim>\<open>std::string\<close> or a
  \<^verbatim>\<open>double\<close>, so the node returned holds a new value built by
  \<^verbatim>\<open>value::set_state\<close>; the empty value that \<^verbatim>\<open>new_node\<close> held before the
  assignment dies there. \<open>of_int64\<close> is the conversion of \<^verbatim>\<open>try_as_number\<close> and
  \<open>add_double\<close> is \<^verbatim>\<open>+\<close> on \<^verbatim>\<open>double\<close>.
\<close>

definition plus_values ::
  "(int \<Rightarrow> 'd) \<Rightarrow> ('d \<Rightarrow> 'd \<Rightarrow> 'd) \<Rightarrow> 'd value \<Rightarrow> 'd value \<Rightarrow> 'd allowed_value outcome" where
  "plus_values of_int64 add_double val other =
     (if val_type val = VT_string then
        (case value_as_string val of
           Returns s1 \<Rightarrow>
             (case value_as_string other of
                Returns s2 \<Rightarrow> Returns (A_string (s1 @ s2))
              | Throws e \<Rightarrow> Throws e
              | Terminate \<Rightarrow> Terminate
              | Undefined_behaviour \<Rightarrow> Undefined_behaviour
              | Assertion_fails \<Rightarrow> Assertion_fails)
         | Throws e \<Rightarrow> Throws e
         | Terminate \<Rightarrow> Terminate
         | Undefined_behaviour \<Rightarrow> Undefined_behaviour
         | Assertion_fails \<Rightarrow> Assertion_fails)
      else if val_type val = VT_double_t \<or> val_type val = VT_integer then
        (case value_as_number of_int64 val of
           Returns d1 \<Rightarrow>
             (case value_as_number of_int64 other of
                Returns d2 \<Rightarrow> Returns (A_floating (add_double d1 d2))
              | Throws e \<Rightarrow> Throws e
              | Terminate \<Rightarrow> Terminate
              | Undefined_behaviour \<Rightarrow> Undefined_behaviour
              | Assertion_fails \<Rightarrow> Assertion_fails)
         | Throws e \<Rightarrow> Throws e
         | Terminate \<Rightarrow> Terminate
         | Undefined_behaviour \<Rightarrow> Undefined_behaviour
         | Assertion_fails \<Rightarrow> Assertion_fails)
      else Throws (Luco_error Err_wrong_type))"

text \<open>\<^verbatim>\<open>node::operator+\<close>: the node returned and the store, or the exception thrown.\<close>

definition node_plus ::
  "(int \<Rightarrow> 'd) \<Rightarrow> ('d \<Rightarrow> 'd \<Rightarrow> 'd) \<Rightarrow> 'd heap \<Rightarrow> node \<Rightarrow> node \<Rightarrow> (node \<times> 'd heap) outcome" where
  "node_plus of_int64 add_double h this other_node =
     (if type_of_node this \<noteq> type_of_node other_node then Throws (Luco_error Err_wrong_type)
      else case (this, other_node) of
        (Object_ptr p, Object_ptr q) \<Rightarrow>
          (let (new_node, h1) = node_of_type h Object_type;
               h2 = plus_insert_loop h1 new_node (objects_of h1 ! p);
               h3 = plus_insert_loop h2 new_node (objects_of h2 ! q)
           in Returns (new_node, h3))
      | (Array_ptr p, Array_ptr q) \<Rightarrow>
          (let (new_node, h1) = node_of_type h Array_type;
               h2 = plus_push_back_loop h1 new_node (arrays_of h1 ! p);
               h3 = plus_push_back_loop h2 new_node (arrays_of h2 ! q)
           in Returns (new_node, h3))
      | (Value_ptr p, Value_ptr q) \<Rightarrow>
          map_returns (\<lambda>a. setting_allowed_node_type h (C_allowed (N_scalar a)))
            (plus_values of_int64 add_double (values_of h ! p) (values_of h ! q))
      | _ \<Rightarrow> Throws (Luco_error Err_wrong_type))"

subsection \<open>The tree a node stands for\<close>

text \<open>
  Structural comparison unfolds the store from a node. A node can be inserted into its
  own descendants, so the unfolding is cut at a depth; two nodes are structurally equal
  when their unfoldings agree at every depth.
\<close>

datatype 'd tree =
    Tree_value "'d value"
  | Tree_array "'d tree list"
  | Tree_object "(string \<times> 'd tree) list"
  | Tree_cut

fun view :: "nat \<Rightarrow> 'd heap \<Rightarrow> node \<Rightarrow> 'd tree" where
  "view 0 h n = Tree_cut"
| "view (Suc d) h (Value_ptr p) = Tree_value (values_of h ! p)"
| "view (Suc d) h (Array_ptr p) = Tree_array (map (view d h) (arrays_of h ! p))"
| "view (Suc d) h (Object_ptr p) =
     Tree_object (map (\<lambda>(key, n). (key, view d h n)) (objects_of h ! p))"

definition structurally_equal :: "'d heap \<Rightarrow> node \<Rightarrow> node \<Rightarrow> bool" where
  "structurally_equal h n1 n2 = (\<forall>d. view d h n1 = view d h n2)"

text \<open>
  A node is live in a store when its address is allocated there; a store is closed when
  every node stored in a container is live.
\<close>

fun live :: "'d heap \<Rightarrow> node \<Rightarrow> bool" where
  "live h (Value_ptr p) = (p < length (values_of h))"
| "live h (Array_ptr p) = (p < length (arrays_of h))"
| "live h (Object_ptr p) = (p < length (objects_of h))"

definition closed :: "'d heap \<Rightarrow> bool" where
  "closed h =
     ((\<forall>arr \<in> set (arrays_of h). \<forall>n \<in> set arr. live h n) \<and>
      (\<forall>obj \<in> set (objects_of h). \<forall>n \<in> snd ` set obj. live h n))"

text \<open>The class invariant of \<^verbatim>\<open>std::map\<close>: keys strictly increasing.\<close>

definition std_map :: "luco_object \<Rightarrow> bool" where
  "std_map m = sorted_wrt (<) (map fst m)"

text \<open>
  A store keeps another when every cell of the earlier store is still there, with the
  same content: the later store has only got new cells.
\<close>

definition keeps :: "'d heap \<Rightarrow> 'd heap \<Rightarrow> bool" where
  "keeps h0 h =
     (take (length (values_of h0)) (values_of h) = values_of h0 \<and>
      take (length (arrays_of h0)) (arrays_of h) = arrays_of h0 \<and>
      take (length (objects_of h0)) (objects_of h) = objects_of h0)"

text \<open>What a loop of \<^verbatim>\<open>insert\<close> calls makes of the \<^verbatim>\<open>std::map\<close> it fills.\<close>

definition insert_entries :: "luco_object \<Rightarrow> luco_object \<Rightarrow> luco_object" where
  "insert_entries es m = fold (\<lambda>(key, n). map_insert key n) es m"

text \<open>
  The tree that an argument of \<^verbatim>\<open>insert\<close>, \<^verbatim>\<open>push_back\<close> or \<^verbatim>\<open>set\<close> stands
  for, read off the argument and not off the node built from it: a scalar and a
  \<^verbatim>\<open>class value\<close> stand for a value, a node for its own tree, a sequence container
  for the array of its elements in their order, and a key-value container for the
  object of its pairs, a later pair replacing an earlier one of the same key. It is
  what the tree under the new entry is compared with.
\<close>

fun tree_of_allowed :: "nat \<Rightarrow> 'd heap \<Rightarrow> 'd allowed_node \<Rightarrow> 'd tree" where
  "tree_of_allowed 0 h a = Tree_cut"
| "tree_of_allowed (Suc d) h (N_scalar a) = Tree_value (set_state a)"
| "tree_of_allowed (Suc d) h (N_value v) = Tree_value v"
| "tree_of_allowed (Suc d) h (N_node n) = view (Suc d) h n"

fun tree_of_argument :: "nat \<Rightarrow> 'd heap \<Rightarrow> 'd container_or_node \<Rightarrow> 'd tree" where
  "tree_of_argument 0 h v = Tree_cut"
| "tree_of_argument (Suc d) h (C_value_container xs) = Tree_array (map (tree_of_allowed d h) xs)"
| "tree_of_argument (Suc d) h (C_key_value_container kvs) =
     Tree_object (fold (\<lambda>(key, a). map_insert key (tree_of_allowed d h a)) kvs [])"
| "tree_of_argument (Suc d) h (C_allowed a) = tree_of_allowed (Suc d) h a"
| "tree_of_argument (Suc d) h (C_variant a) = tree_of_allowed (Suc d) h a"

text \<open>
  A node holds an element of a container when it is the node the element becomes: the
  node itself, or a value node whose cell holds the value.
\<close>

fun node_holds :: "'d heap \<Rightarrow> 'd allowed_node \<Rightarrow> node \<Rightarrow> bool" where
  "node_holds h (N_scalar a) (Value_ptr q) =
     (q < length (values_of h) \<and> values_of h ! q = set_state a)"
| "node_holds h (N_scalar a) n = False"
| "node_holds h (N_value v) (Value_ptr q) = (q < length (values_of h) \<and> values_of h ! q = v)"
| "node_holds h (N_value v) n = False"
| "node_holds h (N_node m) n = (n = m)"

section \<open>The parser\<close>

subsection \<open>Parsing data\<close>

datatype luco_syntax =
    LS_none
  | LS_opening_bracket
  | LS_closing_bracket
  | LS_transient_bracket
  | LS_undetermined_transient_bracket
  | LS_quotes_1
  | LS_quotes_2
  | LS_key
  | LS_equal_sign
  | LS_value
  | LS_string_type
  | LS_boolean
  | LS_null
  | LS_number
  | LS_newline
  | LS_empty
  | LS_escaped_newline
  | LS_object
  | LS_comment
  | LS_nested_comment
  | LS_array
  | LS_maybe_empty_space_after
  | LS_flush_value

datatype luco_value_type =
    LV_none
  | LV_unqouted_string
  | LV_qouted_string_1
  | LV_qouted_string_2
  | LV_escaped_string_newline_unqouted
  | LV_escaped_string_newline_qouted_1
  | LV_escaped_string_newline_qouted_2
  | LV_end_string_1
  | LV_end_string_2
  | LV_end_string_unqouted

text \<open>
  A \<^verbatim>\<open>luco::node*\<close> on the stack \<^verbatim>\<open>luco_objs\<close>: the address of the local
  \<^verbatim>\<open>luco_data\<close> of \<^verbatim>\<open>try_parse\<close>, or of a node inside a container.
\<close>

datatype node_ptr = Root_node | Slot node_ref

text \<open>
  \<^verbatim>\<open>struct parsing_data\<close>, with the stacks as lists, the top first. The member
  \<^verbatim>\<open>value\<close> is never used and is left out. Four fields are added to it: the counter
  \<^verbatim>\<open>brackets_count\<close> of the \<^verbatim>\<open>comment\<close> token, the local \<^verbatim>\<open>luco_data\<close> of
  \<^verbatim>\<open>try_parse\<close>, the store, and the first fault of the run, if there was one: an
  \<^verbatim>\<open>assert\<close> whose condition was false, or an operation whose behaviour is undefined
  (\<^verbatim>\<open>top()\<close> or \<^verbatim>\<open>pop()\<close> of an empty \<^verbatim>\<open>std::stack\<close>, or the use of a dangling
  \<^verbatim>\<open>node*\<close>). The first fault decides what the program does, so a later one does
  not replace it. The model goes on with a default after a fault, and \<^verbatim>\<open>try_parse\<close>
  reports the fault instead of a result.
\<close>

datatype fault = Assertion_failed | Undefined_operation

record 'd parsing_data =
  data_line :: string
  data_i :: nat
  data_line_number :: nat
  data_shift_index_backward_for_oldnewline :: bool
  data_eof :: bool
  data_keys :: "(string \<times> luco_value_type) list"
  data_luco_objs :: "node_ptr list"
  data_escaped_special_char :: "nat \<times> bool \<times> char"
  data_raw_value :: "string \<times> luco_value_type"
  data_hierarchy :: "(luco_syntax \<times> nat \<times> nat) list"
  comment_brackets_count :: nat
  luco_data :: node
  store :: "'d heap"
  data_fault :: "fault option"

definition fault_now :: "fault \<Rightarrow> 'd parsing_data \<Rightarrow> 'd parsing_data" where
  "fault_now f data = (if data_fault data = None then data\<lparr>data_fault := Some f\<rparr> else data)"

text \<open>\<^verbatim>\<open>assert(condition)\<close>\<close>

definition cpp_assert :: "bool \<Rightarrow> 'd parsing_data \<Rightarrow> 'd parsing_data" where
  "cpp_assert condition data = (if condition then data else fault_now Assertion_failed data)"

definition special_chars :: "char list" where
  "special_chars = [CHR ''{'', CHR ''='', CHR ''}'', CHR 0x22, CHR 0x27, CHR 0x5C]"

text \<open>\<^verbatim>\<open>data.line[data.i]\<close>\<close>

definition cur :: "'d parsing_data \<Rightarrow> char" where
  "cur data = str_at (data_line data) (data_i data)"

text \<open>The stacks: \<^verbatim>\<open>top()\<close> and \<^verbatim>\<open>pop()\<close> where the source does not test \<^verbatim>\<open>empty()\<close> first.\<close>

definition hierarchy_top :: "'d parsing_data \<Rightarrow> luco_syntax" where
  "hierarchy_top data = (case data_hierarchy data of [] \<Rightarrow> LS_none | t # _ \<Rightarrow> fst t)"

definition need_hierarchy :: "'d parsing_data \<Rightarrow> 'd parsing_data" where
  "need_hierarchy data =
     (if data_hierarchy data = [] then fault_now Undefined_operation data else data)"

definition keys_top :: "'d parsing_data \<Rightarrow> string \<times> luco_value_type" where
  "keys_top data = (case data_keys data of [] \<Rightarrow> ([], LV_none) | t # _ \<Rightarrow> t)"

definition need_keys :: "'d parsing_data \<Rightarrow> 'd parsing_data" where
  "need_keys data =
     (if data_keys data = [] then fault_now Undefined_operation data else data)"

definition set_keys_top :: "'d parsing_data \<Rightarrow> string \<times> luco_value_type \<Rightarrow> 'd parsing_data" where
  "set_keys_top data kv =
     (case data_keys data of
        [] \<Rightarrow> fault_now Undefined_operation data
      | _ # rest \<Rightarrow> data\<lparr>data_keys := kv # rest\<rparr>)"

definition keys_pop :: "'d parsing_data \<Rightarrow> 'd parsing_data" where
  "keys_pop data =
     (case data_keys data of
        [] \<Rightarrow> fault_now Undefined_operation data
      | _ # rest \<Rightarrow> data\<lparr>data_keys := rest\<rparr>)"

definition luco_objs_pop :: "'d parsing_data \<Rightarrow> 'd parsing_data" where
  "luco_objs_pop data =
     (case data_luco_objs data of
        [] \<Rightarrow> fault_now Undefined_operation data
      | _ # rest \<Rightarrow> data\<lparr>data_luco_objs := rest\<rparr>)"

text \<open>\<^verbatim>\<open>*data.luco_objs.top()\<close>: the node the top pointer designates.\<close>

definition top_node :: "'d parsing_data \<Rightarrow> node \<times> 'd parsing_data" where
  "top_node data =
     (case data_luco_objs data of
        [] \<Rightarrow> (luco_data data, fault_now Undefined_operation data)
      | Root_node # _ \<Rightarrow> (luco_data data, data)
      | Slot r # _ \<Rightarrow>
          (case read_ref (store data) r of
             None \<Rightarrow> (luco_data data, fault_now Undefined_operation data)
           | Some n \<Rightarrow> (n, data)))"

subsection \<open>class token\<close>

text \<open>
  \<^verbatim>\<open>token::is_escaped\<close>. It is called for its result and for its effect on
  \<^verbatim>\<open>data.escaped_special_char\<close>, so it returns both.
\<close>

definition is_escaped :: "'d parsing_data \<Rightarrow> char \<Rightarrow> bool \<times> 'd parsing_data" where
  "is_escaped data ch =
     (case data_escaped_special_char data of
        (escape_char_pos, append_escape_char, escape_char) \<Rightarrow>
          if data_i data + 1 < length (data_line data) \<and> data_line data ! (data_i data + 1) = ch then
            (if ch \<notin> set special_chars then
               (False, data\<lparr>data_escaped_special_char := (0, False, CHR 0x00)\<rparr>)
             else
               (True, data\<lparr>data_escaped_special_char :=
                  (data_line_number data * data_i data,
                   (if escape_char \<noteq> ch then False
                    else if escape_char_pos \<noteq> data_line_number data * data_i data \<and> escape_char_pos \<noteq> 0
                      then True
                    else False),
                   ch)\<rparr>))
          else if escape_char = ch \<and> \<not> append_escape_char then
            (True, data\<lparr>data_escaped_special_char :=
               (data_line_number data * data_i data, True, escape_char)\<rparr>)
          else (False, data\<lparr>data_escaped_special_char := (0, False, CHR 0x00)\<rparr>))"

text \<open>\<^verbatim>\<open>token::delimiter\<close>: \<^verbatim>\<open>data.line[data.i] == ch && not token::is_escaped(data, ch)\<close>.\<close>

definition delimiter :: "'d parsing_data \<Rightarrow> char \<Rightarrow> bool \<times> 'd parsing_data" where
  "delimiter data ch =
     (if cur data = ch then (let (escaped, data1) = is_escaped data ch in (\<not> escaped, data1))
      else (False, data))"

definition is_empty :: "char \<Rightarrow> bool" where
  "is_empty ch = (ch = CHR '' '' \<or> ch = CHR 0x09)"

definition is_newline :: "char \<Rightarrow> bool" where
  "is_newline ch = (ch = CHR 0x0A)"

definition is_empty_newline :: "char \<Rightarrow> bool" where
  "is_empty_newline ch = (ch = CHR '' '' \<or> ch = CHR 0x09 \<or> ch = CHR 0x0A)"

text \<open>\<^verbatim>\<open>token::handle_is\<close>, on the set \<^verbatim>\<open>is\<close> of the token.\<close>

definition handle_is :: "'d parsing_data \<Rightarrow> luco_syntax list \<Rightarrow> bool" where
  "handle_is data is_tokens =
     (case data_hierarchy data of [] \<Rightarrow> False | t # _ \<Rightarrow> fst t \<in> set is_tokens)"

text \<open>
  The loop of \<^verbatim>\<open>token::handle_not\<close> over the \<^verbatim>\<open>std::set<char> _not\<close>, given as the
  list of its elements in increasing order. Its \<^verbatim>\<open>assert(data.line[data.i] == ch)\<close>
  stands after \<^verbatim>\<open>if (data.line[data.i] != ch) continue\<close> and cannot fail; the same
  holds for the assertion of \<^verbatim>\<open>token::handle_expected\<close>.
\<close>

fun handle_not :: "'d parsing_data \<Rightarrow> char list \<Rightarrow> bool \<times> 'd parsing_data" where
  "handle_not data [] = (True, data)"
| "handle_not data (ch # rest) =
     (if cur data \<noteq> ch then handle_not data rest
      else if ch \<in> set special_chars then
        (let (escaped, data1) = is_escaped data ch
         in if \<not> escaped then (False, data1) else handle_not data1 rest)
      else (False, data))"

text \<open>
  The loop of \<^verbatim>\<open>token::handle_expected\<close> over the
  \<^verbatim>\<open>std::multimap<luco_syntax, char> expected\<close>, given as the list of its pairs in the
  order of the keys.
\<close>

fun handle_expected :: "'d parsing_data \<Rightarrow> (luco_syntax \<times> char) list \<Rightarrow> bool \<times> 'd parsing_data" where
  "handle_expected data [] = (False, data)"
| "handle_expected data (expect # rest) =
     (if snd expect \<noteq> cur data then handle_expected data rest
      else if snd expect \<in> set special_chars then
        (let (escaped, data1) = is_escaped data (snd expect)
         in if \<not> escaped then (True, data1) else handle_expected data1 rest)
      else (True, data))"

definition register_token :: "'d parsing_data \<Rightarrow> luco_syntax \<Rightarrow> 'd parsing_data" where
  "register_token data token_type =
     data\<lparr>data_hierarchy := (token_type, data_line_number data, data_i data) # data_hierarchy data\<rparr>"

definition is_registered_token :: "'d parsing_data \<Rightarrow> luco_syntax \<Rightarrow> bool" where
  "is_registered_token data token_type =
     (case data_hierarchy data of [] \<Rightarrow> False | t # _ \<Rightarrow> fst t = token_type)"

text \<open>
  \<^verbatim>\<open>token::unregister_token\<close>: \<^verbatim>\<open>assert(not data.hierarchy.empty() && "...")\<close> and
  then \<^verbatim>\<open>data.hierarchy.pop()\<close>.
\<close>

definition unregister_token :: "'d parsing_data \<Rightarrow> 'd parsing_data" where
  "unregister_token data =
     (let data0 = cpp_assert (data_hierarchy data \<noteq> []) data
      in case data_hierarchy data0 of
           [] \<Rightarrow> fault_now Undefined_operation data0
         | _ # rest \<Rightarrow> data0\<lparr>data_hierarchy := rest\<rparr>)"

subsection \<open>luco_simple_types: the string state machine\<close>

text \<open>
  \<^verbatim>\<open>strip_if_unqouted_string\<close>: the loop looks for the last character that is not a
  blank, and stops at index 0 whatever stands there.
\<close>

fun strip_loop :: "string \<Rightarrow> nat \<Rightarrow> nat" where
  "strip_loop data i =
     (if \<not> is_empty (str_at data i) then i
      else if i = 0 then i
      else strip_loop data (i - 1))"

definition strip_if_unqouted_string :: "string \<Rightarrow> luco_value_type \<Rightarrow> string" where
  "strip_if_unqouted_string data key_value_type =
     (if key_value_type \<noteq> LV_unqouted_string \<or> data = [] \<or> \<not> is_empty (last data) then data
      else let i = strip_loop data (length data - 1)
           in if i \<noteq> length data - 1 then take (i + 1) data else data)"

definition append_string ::
  "'d parsing_data \<Rightarrow> luco_value_type \<Rightarrow> char \<Rightarrow> bool \<times> 'd parsing_data" where
  "append_string data key_value_type ch =
     (let (open_b, data1) = delimiter data CHR ''{'';
          (brace, data2) = (if open_b then (True, data1) else delimiter data1 CHR ''}'')
      in if brace then (False, data2)
         else if \<not> is_newline ch \<and> key_value_type = LV_unqouted_string then (True, data2)
         else let (q2, data3) = delimiter data2 CHR 0x22
              in if \<not> q2 \<and> key_value_type = LV_qouted_string_2 then (True, data3)
                 else let (q1, data4) = delimiter data3 CHR 0x27
                      in if \<not> q1 \<and> key_value_type = LV_qouted_string_1 then (True, data4)
                         else (False, data4))"

definition expected_multi_line_string :: "luco_value_type \<Rightarrow> bool" where
  "expected_multi_line_string key_value_type =
     (key_value_type = LV_escaped_string_newline_qouted_1 \<or>
      key_value_type = LV_escaped_string_newline_qouted_2 \<or>
      key_value_type = LV_escaped_string_newline_unqouted)"

definition end_of_string :: "luco_value_type \<Rightarrow> bool" where
  "end_of_string key_value_type =
     (key_value_type = LV_end_string_1 \<or> key_value_type = LV_end_string_2 \<or>
      key_value_type = LV_end_string_unqouted)"

text \<open>
  The branch \<^verbatim>\<open>key_value_type == luco_value_type::none\<close> of
  \<^verbatim>\<open>handle_empty_in_string\<close>: the result, the new \<^verbatim>\<open>key_value_type\<close> and the data.
\<close>

definition handle_none_in_string ::
  "'d parsing_data \<Rightarrow> bool \<times> luco_value_type \<times> 'd parsing_data" where
  "handle_none_in_string data =
     (let (q1, data1) = delimiter data (CHR 0x27)
      in if q1 then (False, LV_qouted_string_1, data1)
         else let (q2, data2) = delimiter data1 (CHR 0x22)
              in if q2 then (False, LV_qouted_string_2, data2)
                 else let (open_b, data3) = delimiter data2 CHR ''{''
                      in if open_b then (False, LV_none, data3)
                         else let (close_b, data4) = delimiter data3 CHR ''}''
                              in if close_b then (False, LV_none, data4)
                                 else (True, LV_unqouted_string, data4))"

text \<open>
  The last branches of \<^verbatim>\<open>handle_empty_in_string\<close>, from
  \<^verbatim>\<open>token::delimiter(data, '\'') && key_value_type == qouted_string_1\<close> on.
\<close>

definition handle_closing_in_string ::
  "'d parsing_data \<Rightarrow> luco_value_type \<Rightarrow> bool \<times> luco_value_type \<times> 'd parsing_data" where
  "handle_closing_in_string data key_value_type =
     (let (q1, data1) = delimiter data (CHR 0x27)
      in if q1 \<and> key_value_type = LV_qouted_string_1 then (True, LV_end_string_1, data1)
         else let (q2, data2) = delimiter data1 (CHR 0x22)
              in if q2 \<and> key_value_type = LV_qouted_string_2 then (True, LV_end_string_2, data2)
                 else if is_newline (cur data2) \<and> key_value_type = LV_unqouted_string
                   then (True, LV_end_string_unqouted, data2)
                 else (False, key_value_type, data2))"

text \<open>
  \<^verbatim>\<open>handle_empty_in_string\<close>. Its parameter \<^verbatim>\<open>key_value_type\<close> is a reference to
  the state of the key or of the value; the model takes the state and returns the new
  one.
\<close>

definition handle_empty_in_string ::
  "'d parsing_data \<Rightarrow> luco_value_type \<Rightarrow> char \<Rightarrow> bool \<times> luco_value_type \<times> 'd parsing_data" where
  "handle_empty_in_string data key_value_type ch =
     (if is_empty_newline ch \<and> (key_value_type = LV_none \<or> expected_multi_line_string key_value_type)
        then (False, key_value_type, data)
      else if fst (data_escaped_special_char data) \<noteq> 0 then
        (if \<not> fst (snd (data_escaped_special_char data)) then (False, key_value_type, data)
         else (True,
               (if key_value_type = LV_none then LV_unqouted_string else key_value_type),
               data\<lparr>data_escaped_special_char := (0, False, CHR 0x00)\<rparr>))
      else let (backslash, data1) = delimiter data (CHR 0x5C)
        in if backslash then
             (False,
              (if key_value_type = LV_end_string_1 then LV_escaped_string_newline_qouted_1
               else if key_value_type = LV_end_string_2 then LV_escaped_string_newline_qouted_2
               else LV_escaped_string_newline_unqouted),
              data1)
           else if key_value_type = LV_escaped_string_newline_qouted_1 then
             (let (q1, data2) = delimiter data1 (CHR 0x27)
              in (False, (if q1 then LV_qouted_string_1 else key_value_type), data2))
           else if key_value_type = LV_escaped_string_newline_qouted_2 then
             (let (q2, data2) = delimiter data1 (CHR 0x22)
              in (False, (if q2 then LV_qouted_string_2 else key_value_type), data2))
           else if key_value_type = LV_escaped_string_newline_unqouted then
             (True, LV_unqouted_string, data1)
           else let (append, data2) = append_string data1 key_value_type ch
             in if append then (True, key_value_type, data2)
                else if key_value_type = LV_none then handle_none_in_string data2
                else if key_value_type = LV_end_string_1 \<or> key_value_type = LV_end_string_2
                  then (False, key_value_type, data2)
                else handle_closing_in_string data2 key_value_type)"

subsection \<open>The tokens\<close>

text \<open>
  What \<^verbatim>\<open>handle_token\<close> gives: the \<^verbatim>\<open>expected<bool, error>\<close> it returns
  (\<open>Done\<close> for a value, \<open>Failed\<close> for \<^verbatim>\<open>unexpected(error)\<close>), or the exception
  that leaves it.
\<close>

datatype handled = Done bool | Failed error_type | Thrown cpp_exception

text \<open>The sets \<^verbatim>\<open>_not\<close> and the multimaps \<^verbatim>\<open>expected\<close> that the constructors fill.\<close>

definition comment_expected :: "(luco_syntax \<times> char) list" where
  "comment_expected = [(LS_newline, CHR 0x0A)]"

definition opening_bracket_expected :: "(luco_syntax \<times> char) list" where
  "opening_bracket_expected = [(LS_object, CHR ''=''), (LS_object, CHR ''{''), (LS_array, CHR 0x0A)]"

definition luco_key_not :: "char list" where
  "luco_key_not = [CHR 0x09, CHR 0x0A, CHR '' '', CHR ''{'', CHR ''}'']"

definition luco_key_expected :: "(luco_syntax \<times> char) list" where
  "luco_key_expected = [(LS_opening_bracket, CHR ''{''), (LS_equal_sign, CHR ''='')]"

definition luco_value_not :: "char list" where
  "luco_value_not = [CHR 0x09, CHR 0x0A, CHR '' '', CHR ''}'']"

definition luco_value_expected :: "(luco_syntax \<times> char) list" where
  "luco_value_expected = [(LS_newline, CHR 0x0A)]"

subsubsection \<open>class comment\<close>

definition comment_is_end_of_token :: "'d parsing_data \<Rightarrow> bool \<times> 'd parsing_data" where
  "comment_is_end_of_token data =
     (let (first, data1) =
            (if data_hierarchy data \<noteq> [] \<and> hierarchy_top data = LS_comment
             then handle_expected data comment_expected else (False, data))
      in if first then (True, data1)
         else if data_hierarchy data1 \<noteq> [] \<and> hierarchy_top data1 = LS_nested_comment then
           (let (closing, data2) = delimiter data1 CHR ''}''
            in (closing \<and> comment_brackets_count data2 = 0, data2))
         else (False, data1))"

text \<open>The second half of \<^verbatim>\<open>comment::handle_token\<close>, from \<^verbatim>\<open>is_registered_token\<close> on.\<close>

definition comment_registered :: "'d parsing_data \<Rightarrow> handled \<times> 'd parsing_data" where
  "comment_registered data =
     (if is_registered_token data LS_comment then
        (let (open_b, data1) = delimiter data CHR ''{''
         in (Done True,
             if open_b then register_token (unregister_token data1) LS_nested_comment else data1))
      else if is_registered_token data LS_nested_comment then
        (let (open_b, data1) = delimiter data CHR ''{''
         in if open_b
            then (Done True, data1\<lparr>comment_brackets_count := comment_brackets_count data1 + 1\<rparr>)
            else let (close_b, data2) = delimiter data1 CHR ''}''
                 in (Done True,
                     if close_b \<and> comment_brackets_count data2 > 0
                     then data2\<lparr>comment_brackets_count := comment_brackets_count data2 - 1\<rparr>
                     else data2))
      else (Done False, data))"

definition comment_handle_token :: "'d parsing_data \<Rightarrow> handled \<times> 'd parsing_data" where
  "comment_handle_token data =
     (let (is_token, data1) = delimiter data CHR ''#''
      in if is_token then comment_registered (register_token data1 LS_comment)
         else let (is_end, data2) = comment_is_end_of_token data1
              in if is_end then
                   (Done True,
                    unregister_token
                      (if hierarchy_top data2 \<noteq> LS_nested_comment
                       then data2\<lparr>data_shift_index_backward_for_oldnewline := True\<rparr>
                       else data2))
                 else comment_registered data2)"

subsubsection \<open>Committing into the tree\<close>

text \<open>
  \<^verbatim>\<open>data.luco_objs.top()->insert(key, x)\<close> and
  \<^verbatim>\<open>data.luco_objs.top()->push_back(x)\<close>, the calls through which the parser
  builds the tree: the \<^verbatim>\<open>expected\<close> they return, and the data with the new store.
\<close>

definition top_insert ::
  "'d parsing_data \<Rightarrow> string \<Rightarrow> 'd container_or_node \<Rightarrow> (error_type + node_ref) \<times> 'd parsing_data" where
  "top_insert data key x =
     (let (top, data1) = top_node data;
          (ok, h) = node_insert (store data1) top key x
      in (ok, data1\<lparr>store := h\<rparr>))"

definition top_push_back ::
  "'d parsing_data \<Rightarrow> 'd container_or_node \<Rightarrow> (error_type + node_ref) \<times> 'd parsing_data" where
  "top_push_back data x =
     (let (top, data1) = top_node data;
          (ok, h) = node_push_back (store data1) top x
      in (ok, data1\<lparr>store := h\<rparr>))"

text \<open>\<^verbatim>\<open>luco::node(node_type::...)\<close> as the argument of such a call.\<close>

definition new_node :: "'d parsing_data \<Rightarrow> node_type \<Rightarrow> 'd container_or_node \<times> 'd parsing_data" where
  "new_node data t =
     (let (n, h) = node_of_type (store data) t in (C_allowed (N_node n), data\<lparr>store := h\<rparr>))"

text \<open>
  The \<^verbatim>\<open>std::variant<std::string, bool, double, int64_t, null_type>\<close> of
  \<^verbatim>\<open>get_type\<close> as an argument of \<^verbatim>\<open>insert\<close> and \<^verbatim>\<open>push_back\<close>
  (\<^verbatim>\<open>is_allowed_variant\<close>).
\<close>

fun variant_of_typed_value :: "'d typed_value \<Rightarrow> 'd container_or_node" where
  "variant_of_typed_value (T_string s) = C_variant (N_scalar (A_string s))"
| "variant_of_typed_value (T_bool b) = C_variant (N_scalar (A_bool b))"
| "variant_of_typed_value (T_double d) = C_variant (N_scalar (A_floating d))"
| "variant_of_typed_value (T_int64 i) = C_variant (N_scalar (A_integral i))"
| "variant_of_typed_value T_null = C_variant (N_scalar A_null)"

text \<open>
  \<^verbatim>\<open>luco_value::insert_value\<close>. The type of the value is inferred from
  \<^verbatim>\<open>data.raw_value.first\<close> whatever \<^verbatim>\<open>data.raw_value.second\<close> is, and an
  exception of \<^verbatim>\<open>get_type\<close> leaves the function (\<^verbatim>\<open>get_type\<close> returns,
  throws or stops at an assertion; its other two outcomes do not arise). The
  \<^verbatim>\<open>assert(true && "...")\<close> of its last branch never fails.
\<close>

definition insert_value ::
  "(string \<Rightarrow> 'd option) \<Rightarrow> 'd parsing_data \<Rightarrow> handled \<times> 'd parsing_data" where
  "insert_value strtod data =
     (let data1 = data\<lparr>data_raw_value :=
            (strip_if_unqouted_string (fst (data_raw_value data)) (snd (data_raw_value data)),
             snd (data_raw_value data))\<rparr>
      in case get_type strtod (fst (data_raw_value data1)) of
           Throws e \<Rightarrow> (Thrown e, data1)
         | Terminate \<Rightarrow> (Done False, fault_now Undefined_operation data1)
         | Undefined_behaviour \<Rightarrow> (Done False, fault_now Undefined_operation data1)
         | Assertion_fails \<Rightarrow> (Done False, fault_now Assertion_failed data1)
         | Returns typed_value \<Rightarrow>
             (let (top, data2) = top_node data1
              in if type_of_node top = Object_type then
                   (let data3 = need_keys data2;
                        data4 = set_keys_top data3
                          (strip_if_unqouted_string (fst (keys_top data3)) (snd (keys_top data3)),
                           snd (keys_top data3));
                        (ok, data5) =
                          top_insert data4 (fst (keys_top data4)) (variant_of_typed_value typed_value)
                    in case ok of
                         Inl e \<Rightarrow> (Failed e, data5)
                       | Inr r \<Rightarrow> (Done True, (keys_pop data5)\<lparr>data_raw_value := ([], LV_none)\<rparr>))
                 else if type_of_node top = Array_type then
                   (let (ok, data3) = top_push_back data2 (variant_of_typed_value typed_value)
                    in case ok of
                         Inl e \<Rightarrow> (Failed e, data3)
                       | Inr r \<Rightarrow> (Done True, data3\<lparr>data_raw_value := ([], LV_none)\<rparr>))
                 else (Done True, data2\<lparr>data_raw_value := ([], LV_none)\<rparr>)))"

subsubsection \<open>class opening_bracket\<close>

definition opening_bracket_is_end_of_token :: "'d parsing_data \<Rightarrow> bool \<times> 'd parsing_data" where
  "opening_bracket_is_end_of_token data =
     (let (no_value_no_bracket, data1) =
            (if snd (data_raw_value data) = LV_none
             then (let (open_b, data0) = delimiter data CHR ''{'' in (\<not> open_b, data0))
             else (False, data))
      in if no_value_no_bracket \<or> data_hierarchy data1 = [] then (False, data1)
         else if hierarchy_top data1 = LS_transient_bracket
           then handle_expected data1 opening_bracket_expected
         else (False, data1))"

text \<open>
  The end of \<^verbatim>\<open>opening_bracket::handle_token\<close> once the kind of the bracket is
  known, from \<^verbatim>\<open>ok = unexpected(error(error_type::none, "meow"))\<close> on: the new
  container is linked into the container on top and becomes the top.
\<close>

definition opening_bracket_link :: "'d parsing_data \<Rightarrow> handled \<times> 'd parsing_data" where
  "opening_bracket_link data =
     (let data0 = need_hierarchy data
      in if hierarchy_top data0 = LS_opening_bracket \<or> hierarchy_top data0 = LS_equal_sign then
           (let (top, data1) = top_node data0;
                (x, data2) = new_node data1 Object_type;
                (ok, data3) =
                  (if is_object top
                   then (let data2' = need_keys data2 in top_insert data2' (fst (keys_top data2')) x)
                   else top_push_back data2 x);
                data4 = data3\<lparr>data_keys := data_raw_value data3 # data_keys data3,
                             data_raw_value := ([], LV_none)\<rparr>
            in case ok of
                 Inl e \<Rightarrow> (Failed e, data4)
               | Inr r \<Rightarrow> (Done True, data4\<lparr>data_luco_objs := Slot r # data_luco_objs data4\<rparr>))
         else if hierarchy_top data0 = LS_flush_value then
           (let (top, data1) = top_node data0;
                (x, data2) = new_node data1 Array_type;
                (ok, data3) =
                  (if is_object top
                   then (let data2' = need_keys data2 in top_insert data2' (fst (keys_top data2')) x)
                   else top_push_back data2 x)
            in case ok of
                 Inl e \<Rightarrow> (Failed e, data3)
               | Inr r \<Rightarrow> (Done True, data3\<lparr>data_luco_objs := Slot r # data_luco_objs data3\<rparr>))
         else (Failed Err_none, data0))"

text \<open>The branch \<^verbatim>\<open>is_end_of_token\<close> of \<^verbatim>\<open>opening_bracket::handle_token\<close>.\<close>

definition opening_bracket_end :: "'d parsing_data \<Rightarrow> handled \<times> 'd parsing_data" where
  "opening_bracket_end data =
     (let data1 = need_keys (unregister_token data);
          data2 = set_keys_top data1
            (strip_if_unqouted_string (fst (keys_top data1)) (snd (keys_top data1)),
             snd (keys_top data1));
          (equal, data3) = delimiter data2 CHR ''=''
      in if equal then
           opening_bracket_link (register_token (register_token data3 LS_object) LS_equal_sign)
         else let (open_b, data4) = delimiter data3 CHR ''{''
           in if open_b \<and> snd (data_raw_value data4) \<noteq> LV_none then
                opening_bracket_link (register_token (register_token data4 LS_object) LS_opening_bracket)
              else if is_newline (cur data4) then
                opening_bracket_link (register_token (register_token data4 LS_array) LS_flush_value)
              else let (open_b2, data5) = delimiter data4 CHR ''{''
                in if open_b2 \<and> snd (data_raw_value data5) = LV_none then
                     (let data6 = register_token data5 LS_array;
                          (x, data7) = new_node data6 Array_type;
                          data8 = need_keys data7;
                          (ok, data9) = top_insert data8 (fst (keys_top data8)) x
                      in case ok of
                           Inl e \<Rightarrow> (Failed e, data9)
                         | Inr r \<Rightarrow>
                             (Done True,
                              register_token
                                (data9\<lparr>data_luco_objs := Slot r # data_luco_objs data9\<rparr>)
                                LS_transient_bracket))
                   else (Failed Err_parsing_error, data5))"

text \<open>The second half of \<^verbatim>\<open>opening_bracket::handle_token\<close>.\<close>

definition opening_bracket_registered :: "'d parsing_data \<Rightarrow> handled \<times> 'd parsing_data" where
  "opening_bracket_registered data_in =
     (if is_registered_token data_in LS_transient_bracket then
        (let data = cpp_assert (data_keys data_in \<noteq> []) data_in
         in if snd (data_raw_value data) = LV_none \<and> is_newline (cur data) then (Done True, data)
         else let (append, state, data1) =
                    handle_empty_in_string data (snd (data_raw_value data)) (cur data);
                  data2 = data1\<lparr>data_raw_value := (fst (data_raw_value data1), state)\<rparr>
              in if append then
                   (Done True,
                    if \<not> end_of_string state
                    then data2\<lparr>data_raw_value := (fst (data_raw_value data2) @ [cur data2], state)\<rparr>
                    else data2)
                 else (Done False, data2))
      else (Done False, data_in))"

text \<open>
  \<^verbatim>\<open>opening_bracket::handle_token\<close>. Its \<^verbatim>\<open>is_token\<close> is
  \<^verbatim>\<open>assert(not data.hierarchy.empty())\<close> and then \<^verbatim>\<open>handle_is\<close>.
\<close>

definition opening_bracket_handle_token :: "'d parsing_data \<Rightarrow> handled \<times> 'd parsing_data" where
  "opening_bracket_handle_token data_in =
     (let data = cpp_assert (data_hierarchy data_in \<noteq> []) data_in
      in if handle_is data [LS_opening_bracket] then
           opening_bracket_registered (register_token (unregister_token data) LS_transient_bracket)
         else let (is_end, data1) = opening_bracket_is_end_of_token data
              in if is_end then opening_bracket_end data1
                 else opening_bracket_registered data1)"

subsubsection \<open>class luco_key\<close>

definition luco_key_is_token :: "'d parsing_data \<Rightarrow> bool \<times> 'd parsing_data" where
  "luco_key_is_token data_in =
     (let data = cpp_assert (data_hierarchy data_in \<noteq> []) data_in
      in if handle_is data [LS_object] then handle_not data luco_key_not else (False, data))"

definition luco_key_is_end_of_token :: "'d parsing_data \<Rightarrow> bool \<times> 'd parsing_data" where
  "luco_key_is_end_of_token data =
     (if data_hierarchy data \<noteq> [] \<and> hierarchy_top data = LS_key
      then handle_expected data luco_key_expected
      else (False, data))"

definition luco_key_registered :: "'d parsing_data \<Rightarrow> handled \<times> 'd parsing_data" where
  "luco_key_registered data =
     (if is_registered_token data LS_key then
        (let data0 = need_keys (cpp_assert (data_keys data \<noteq> []) data);
             (append, state, data1) = handle_empty_in_string data0 (snd (keys_top data0)) (cur data0);
             data2 = set_keys_top data1 (fst (keys_top data1), state)
         in if append then
              (Done True,
               if \<not> end_of_string state
               then set_keys_top data2 (fst (keys_top data2) @ [cur data2], state)
               else data2)
            else (Done False, data2))
      else (Done False, data))"

definition luco_key_handle_token :: "'d parsing_data \<Rightarrow> handled \<times> 'd parsing_data" where
  "luco_key_handle_token data =
     (let (is_token, data1) = luco_key_is_token data
      in if is_token then
           luco_key_registered
             ((register_token data1 LS_key)\<lparr>data_keys := ([], LV_none) # data_keys data1\<rparr>)
         else let (is_end, data2) = luco_key_is_end_of_token data1;
                  data3 = (if is_end then need_keys data2 else data2)
              in if is_end \<and> \<not> expected_multi_line_string (snd (keys_top data3)) then
                   (let data4 = unregister_token data3;
                        (equal, data5) = delimiter data4 CHR ''=''
                    in (Done True,
                        register_token data5 (if equal then LS_equal_sign else LS_opening_bracket)))
                 else luco_key_registered data3)"

subsubsection \<open>class luco_value\<close>

definition luco_value_is_token :: "'d parsing_data \<Rightarrow> bool \<times> 'd parsing_data" where
  "luco_value_is_token data_in =
     (let data = cpp_assert (data_hierarchy data_in \<noteq> []) data_in
      in if handle_is data [LS_equal_sign, LS_array] then handle_not data luco_value_not
         else (False, data))"

definition luco_value_is_end_of_token :: "'d parsing_data \<Rightarrow> bool \<times> 'd parsing_data" where
  "luco_value_is_end_of_token data =
     (let (first, data1) =
            (if data_hierarchy data \<noteq> [] \<and> hierarchy_top data = LS_value then
               (let (expected, data0) = handle_expected data luco_value_expected
                in if expected
                   then (let (backslash, data0') = delimiter data0 (CHR 0x5C) in (\<not> backslash, data0'))
                   else (False, data0))
             else (False, data))
      in if first then (True, data1)
         else let data2 = need_hierarchy data1
              in if hierarchy_top data2 = LS_flush_value
                 then (True, data2\<lparr>data_shift_index_backward_for_oldnewline := True\<rparr>)
                 else (False, data2))"

definition luco_value_prepare_for_next_token :: "'d parsing_data \<Rightarrow> 'd parsing_data" where
  "luco_value_prepare_for_next_token data =
     (let data1 = need_hierarchy data
      in if hierarchy_top data1 = LS_equal_sign \<or> hierarchy_top data1 = LS_flush_value
         then unregister_token data1 else data1)"

text \<open>The second half of \<^verbatim>\<open>luco_value::handle_token\<close>.\<close>

definition luco_value_registered ::
  "(string \<Rightarrow> 'd option) \<Rightarrow> 'd parsing_data \<Rightarrow> handled \<times> 'd parsing_data" where
  "luco_value_registered strtod data =
     (if is_registered_token data LS_value then
        (let data0 = cpp_assert (data_keys data \<noteq> []) data;
             (escaped, data1) = is_escaped data0 (cur data0);
             (append, state, data2) =
               handle_empty_in_string data1 (snd (data_raw_value data1)) (cur data1);
             data3 = data2\<lparr>data_raw_value := (fst (data_raw_value data2), state)\<rparr>
         in if append then
              (let (equal, data4) = delimiter data3 CHR ''=''
               in if equal then
                    (Done False,
                     data4\<lparr>data_raw_value := (fst (data_raw_value data4), LV_end_string_unqouted)\<rparr>)
                  else
                    (Done True,
                     if \<not> end_of_string state
                     then data4\<lparr>data_raw_value := (fst (data_raw_value data4) @ [cur data4], state)\<rparr>
                     else data4))
            else if cur data3 = CHR ''{'' then
              (let (open_b, data4) = delimiter data3 CHR ''{''
               in if open_b then
                    (let data5 = unregister_token data4
                     in if snd (data_raw_value data5) \<noteq> LV_none then
                          (case insert_value strtod data5 of
                             (Done True, data6) \<Rightarrow> (Done True, register_token data6 LS_transient_bracket)
                           | (Done False, data6) \<Rightarrow> (Done True, register_token data6 LS_transient_bracket)
                           | (failure, data6) \<Rightarrow> (failure, data6))
                        else (Done True, register_token data5 LS_transient_bracket))
                  else (Done False, data4))
            else (Done False, data3))
      else (Done False, data))"

definition luco_value_handle_token ::
  "(string \<Rightarrow> 'd option) \<Rightarrow> 'd parsing_data \<Rightarrow> handled \<times> 'd parsing_data" where
  "luco_value_handle_token strtod data =
     (let (is_token, data1) = luco_value_is_token data
      in if is_token then
           luco_value_registered strtod
             (register_token (luco_value_prepare_for_next_token data1) LS_value)
         else let (is_end, data2) = luco_value_is_end_of_token data1
              in if is_end \<and> \<not> expected_multi_line_string (snd (data_raw_value data2)) then
                   (case insert_value strtod data2 of
                      (Thrown e, data3) \<Rightarrow> (Thrown e, data3)
                    | (ok, data3) \<Rightarrow> (ok, unregister_token data3))
                 else luco_value_registered strtod data2)"

subsubsection \<open>class closing_bracket\<close>

definition closing_bracket_is_token :: "'d parsing_data \<Rightarrow> bool \<times> 'd parsing_data" where
  "closing_bracket_is_token data_in =
     (let data = cpp_assert (data_hierarchy data_in \<noteq> []) data_in
      in if handle_is data [LS_object, LS_array] then delimiter data CHR ''}'' else (False, data))"

definition closing_bracket_prepare_for_next_token :: "'d parsing_data \<Rightarrow> 'd parsing_data" where
  "closing_bracket_prepare_for_next_token data =
     (let data0 = cpp_assert (hierarchy_top data = LS_object \<or> hierarchy_top data = LS_array)
                    (need_hierarchy data);
          data1 = need_hierarchy (unregister_token data0);
          data2 = (if hierarchy_top data1 = LS_object
                   then keys_pop (cpp_assert (data_keys data1 \<noteq> []) data1) else data1)
      in luco_objs_pop (cpp_assert (data_luco_objs data2 \<noteq> []) data2))"

definition closing_bracket_handle_token :: "'d parsing_data \<Rightarrow> handled \<times> 'd parsing_data" where
  "closing_bracket_handle_token data =
     (let (is_token, data1) = closing_bracket_is_token data;
          data2 = (if is_token
                   then register_token
                          (cpp_assert (hierarchy_top data1 = LS_object \<or> hierarchy_top data1 = LS_array)
                             (need_hierarchy data1))
                          LS_closing_bracket
                   else data1)
      in if is_registered_token data2 LS_closing_bracket then
           (let data3 = need_keys (cpp_assert (data_keys (unregister_token data2) \<noteq> [])
                                     (unregister_token data2));
                data4 = need_hierarchy (set_keys_top data3 ([], LV_none))
            in if hierarchy_top data4 \<noteq> LS_object \<and> hierarchy_top data4 \<noteq> LS_array
               then (Failed Err_parsing_error, data4)
               else let data5 = closing_bracket_prepare_for_next_token data4
                    in if data_hierarchy data5 = [] then (Failed Err_parsing_error, data5)
                       else (Done True, data5))
         else if is_registered_token data2 LS_transient_bracket then
           (let (close_b, data3) = delimiter data2 CHR ''}''
            in if close_b then
                 (let data4 = unregister_token
                        (cpp_assert (fst (data_raw_value data3) = [] \<and>
                                     snd (data_raw_value data3) = LV_none) data3);
                      (x, data5) = new_node data4 Object_type;
                      data6 = need_keys data5;
                      (ok, data7) = top_insert data6 (fst (keys_top data6)) x
                  in case ok of
                       Inl e \<Rightarrow> (Failed e, data7)
                     | Inr r \<Rightarrow> (Done True, data7))
               else (Done False, data3))
         else (Done False, data2))"

subsubsection \<open>syntax_error\<close>

text \<open>
  \<^verbatim>\<open>syntax_error\<close>: every error it reports is a \<^verbatim>\<open>parsing_error\<close>. Its tests are
  made in order, each on the data as the calls of \<^verbatim>\<open>delimiter\<close> before it left them.
\<close>

definition syntax_error_brackets :: "'d parsing_data \<Rightarrow> handled \<times> 'd parsing_data" where
  "syntax_error_brackets data =
     (let (open_b, data1) =
            (if data_hierarchy data \<noteq> [] \<and> hierarchy_top data = LS_object
             then delimiter data CHR ''{'' else (False, data))
      in if open_b then (Failed Err_parsing_error, data1)
         else let (close_b, data2) = delimiter data1 CHR ''}''
              in if close_b \<and> data_hierarchy data2 \<noteq> [] \<and>
                    (hierarchy_top data2 \<noteq> LS_object \<or> hierarchy_top data2 \<noteq> LS_array)
                 then (Failed Err_parsing_error, data2)
                 else (Done False, data2))"

definition syntax_error_strings :: "'d parsing_data \<Rightarrow> handled \<times> 'd parsing_data" where
  "syntax_error_strings data =
     (if snd (data_raw_value data) = LV_escaped_string_newline_unqouted \<and> data_eof data
        then (Failed Err_parsing_error, data)
      else if snd (data_raw_value data) = LV_end_string_1 \<or> snd (data_raw_value data) = LV_end_string_2
        then (Failed Err_parsing_error, data)
      else if data_keys data \<noteq> [] \<and> end_of_string (snd (keys_top data)) \<and>
              data_hierarchy data \<noteq> [] \<and> hierarchy_top data = LS_key
        then (Failed Err_parsing_error, data)
      else if end_of_string (snd (data_raw_value data)) \<and>
              data_hierarchy data \<noteq> [] \<and> hierarchy_top data = LS_value
        then (Failed Err_parsing_error, data)
      else syntax_error_brackets data)"

definition syntax_error :: "'d parsing_data \<Rightarrow> handled \<times> 'd parsing_data" where
  "syntax_error data =
     (if is_empty_newline (cur data) then (Done False, data)
      else if data_hierarchy data = [] then (Failed Err_parsing_error, data)
      else let (q1_continues, data1) =
                 (if snd (data_raw_value data) = LV_escaped_string_newline_qouted_1
                  then (let (backslash, data0) = delimiter data (CHR 0x5C) in (\<not> backslash, data0))
                  else (False, data))
        in if q1_continues then (Failed Err_parsing_error, data1)
           else let (q2_continues, data2) =
                      (if snd (data_raw_value data1) = LV_escaped_string_newline_qouted_2
                       then (let (backslash, data0) = delimiter data1 (CHR 0x5C) in (\<not> backslash, data0))
                       else (False, data1))
             in if q2_continues then (Failed Err_parsing_error, data2)
                else syntax_error_strings data2)"

subsection \<open>The driver\<close>

text \<open>
  \<^verbatim>\<open>parser::parsing\<close>: the character is offered to the handlers in a fixed order, and
  the first that returns \<^verbatim>\<open>true\<close> or an error ends the step
  (\<^verbatim>\<open>done_or_not_ok\<close>). The result is the \<^verbatim>\<open>expected<monostate, error>\<close>, or the
  exception that leaves the function.
\<close>

datatype parsed = Parsed | Parse_failed error_type | Parse_thrown cpp_exception

fun try_handlers ::
  "('d parsing_data \<Rightarrow> handled \<times> 'd parsing_data) list \<Rightarrow> 'd parsing_data \<Rightarrow> parsed \<times> 'd parsing_data" where
  "try_handlers [] data = (Parsed, data)"
| "try_handlers (handle_token # rest) data =
     (case handle_token data of
        (Done True, data1) \<Rightarrow> (Parsed, data1)
      | (Done False, data1) \<Rightarrow> try_handlers rest data1
      | (Failed e, data1) \<Rightarrow> (Parse_failed e, data1)
      | (Thrown e, data1) \<Rightarrow> (Parse_thrown e, data1))"

definition parsing :: "(string \<Rightarrow> 'd option) \<Rightarrow> 'd parsing_data \<Rightarrow> parsed \<times> 'd parsing_data" where
  "parsing strtod data =
     try_handlers
       [comment_handle_token, luco_key_handle_token, luco_value_handle_token strtod,
        opening_bracket_handle_token, closing_bracket_handle_token, syntax_error]
       data"

text \<open>
  The inner loop of \<^verbatim>\<open>try_parse\<close>:
  \<^verbatim>\<open>for (data.i = 0; data.i < data.line.size(); data.i++)\<close>. When a handler has set
  \<^verbatim>\<open>shift_index_backward_for_oldnewline\<close> the body does \<^verbatim>\<open>data.i--\<close>, and the
  \<^verbatim>\<open>data.i++\<close> of the loop brings the index back: the same character is offered
  again (also at index 0, where the \<^verbatim>\<open>size_t\<close> wraps around and back). Nothing
  bounds how often that happens, so the loop takes fuel, and \<open>None\<close> is a loop that has
  not ended when the fuel is used up.
\<close>

fun parse_line ::
  "nat \<Rightarrow> (string \<Rightarrow> 'd option) \<Rightarrow> 'd parsing_data \<Rightarrow> (parsed \<times> 'd parsing_data) option" where
  "parse_line 0 strtod data = None"
| "parse_line (Suc fuel) strtod data =
     (if data_i data < length (data_line data) then
        (case parsing strtod data of
           (Parsed, data1) \<Rightarrow>
             (if data_shift_index_backward_for_oldnewline data1
              then parse_line fuel strtod (data1\<lparr>data_shift_index_backward_for_oldnewline := False\<rparr>)
              else parse_line fuel strtod (data1\<lparr>data_i := data_i data1 + 1\<rparr>))
         | (failure, data1) \<Rightarrow> Some (failure, data1))
      else Some (Parsed, data))"

text \<open>
  The outer loop of \<^verbatim>\<open>try_parse(const std::string&)\<close>: the characters are added to
  \<^verbatim>\<open>data.line\<close> one by one, and the line is parsed when the character added is a
  newline, a comma or a closing bracket. What is in \<^verbatim>\<open>data.line\<close> when the input ends
  is not parsed.
\<close>

fun parse_chars ::
  "nat \<Rightarrow> (string \<Rightarrow> 'd option) \<Rightarrow> string \<Rightarrow> 'd parsing_data \<Rightarrow> (parsed \<times> 'd parsing_data) option" where
  "parse_chars fuel strtod [] data = Some (Parsed, data)"
| "parse_chars fuel strtod (c # raw_json) data =
     (let data1 = data\<lparr>data_line := data_line data @ [c]\<rparr>
      in if c = CHR 0x0A \<or> c = CHR '','' \<or> c = CHR ''}'' then
           (case parse_line fuel strtod (data1\<lparr>data_i := 0\<rparr>) of
              None \<Rightarrow> None
            | Some (Parsed, data2) \<Rightarrow>
                parse_chars fuel strtod raw_json
                  (data2\<lparr>data_line := [], data_line_number := data_line_number data2 + 1\<rparr>)
            | Some (failure, data2) \<Rightarrow> Some (failure, data2))
         else parse_chars fuel strtod raw_json data1)"

text \<open>The data at the start of \<^verbatim>\<open>try_parse\<close>: \<^verbatim>\<open>luco_data\<close> is a new empty object.\<close>

definition initial_data :: "'d parsing_data" where
  "initial_data =
     \<lparr>data_line = [], data_i = 0, data_line_number = 1,
      data_shift_index_backward_for_oldnewline = False, data_eof = False,
      data_keys = [([], LV_none)],
      data_luco_objs = [Root_node],
      data_escaped_special_char = (0, False, CHR 0x00),
      data_raw_value = ([], LV_none),
      data_hierarchy = [(LS_object, 1, 0)],
      comment_brackets_count = 0,
      luco_data = fst (node_of_type (empty_heap :: 'd heap) Object_type),
      store = snd (node_of_type (empty_heap :: 'd heap) Object_type),
      data_fault = None\<rparr>"

text \<open>
  \<^verbatim>\<open>parser::try_parse(const std::string&) noexcept\<close>, with the fuel given to each
  line. The result is \<open>None\<close> when a line has used up its fuel; otherwise it is what the
  call does: it returns the \<^verbatim>\<open>expected<luco::node, error>\<close> (the node with the
  store it lives in), or an exception leaves the \<^verbatim>\<open>noexcept\<close> function and the
  program terminates, or its behaviour was undefined, or an assertion failed. The overload
  \<^verbatim>\<open>try_parse(const char*)\<close> is \<^verbatim>\<open>assert(raw_json != NULL)\<close> and then this function
  on the string made of its argument.
\<close>

definition try_parse ::
  "nat \<Rightarrow> (string \<Rightarrow> 'd option) \<Rightarrow> string \<Rightarrow> (error_type + node \<times> 'd heap) outcome option" where
  "try_parse fuel strtod raw_json =
     (case parse_chars fuel strtod raw_json initial_data of
        None \<Rightarrow> None
      | Some (result, data) \<Rightarrow>
          Some
            (case data_fault data of
               Some Assertion_failed \<Rightarrow> Assertion_fails
             | Some Undefined_operation \<Rightarrow> Undefined_behaviour
             | None \<Rightarrow>
                 noexcept
                   (case result of
                      Parse_thrown e \<Rightarrow> Throws e
                    | Parse_failed e \<Rightarrow> Returns (Inl e)
                    | Parsed \<Rightarrow>
                        (if data_hierarchy data = [] then Undefined_behaviour
                         else if hierarchy_top data = LS_nested_comment
                           then Returns (Inl Err_parsing_error)
                         else Returns (Inr (luco_data data, store data))))))"

text \<open>\<^verbatim>\<open>parser::parse(const std::string&)\<close>, which throws the error.\<close>

definition parse :: "nat \<Rightarrow> (string \<Rightarrow> 'd option) \<Rightarrow> string \<Rightarrow> (node \<times> 'd heap) outcome option" where
  "parse fuel strtod raw_json =
     map_option
       (\<lambda>r. case r of
          Returns (Inl e) \<Rightarrow> Throws (Luco_error e)
        | Returns (Inr n) \<Rightarrow> Returns n
        | Throws e \<Rightarrow> Throws e
        | Terminate \<Rightarrow> Terminate
        | Undefined_behaviour \<Rightarrow> Undefined_behaviour
        | Assertion_fails \<Rightarrow> Assertion_fails)
       (try_parse fuel strtod raw_json)"

section \<open>Properties of the scalars and of node access\<close>

text \<open>
  Claim C1: for a node that holds an array of length \<open>L\<close> and an index \<open>i \<ge> L\<close>,
  \<^verbatim>\<open>try_at(i)\<close> is claimed to return an error result carrying \<^verbatim>\<open>KeyNotFound\<close>
  and never to end the program. The code does otherwise: \<^verbatim>\<open>std::vector::at\<close>
  throws \<^verbatim>\<open>std::out_of_range\<close> inside the \<^verbatim>\<open>noexcept\<close> function, so every such
  call reaches \<^verbatim>\<open>std::terminate\<close>.
\<close>

theorem try_at_index_out_of_range_terminates:
  "p < length (arrays_of h) \<Longrightarrow> length (arrays_of h ! p) \<le> i \<Longrightarrow>
   try_at_index h (Array_ptr p) i = Terminate"
  by (simp add: try_at_index_def array_at_def)

theorem try_at_index_out_of_range_terminates_witness:
  "0 < length (arrays_of (snd (node_of_type (empty_heap :: unit heap) Array_type)))
   \<and> length (arrays_of (snd (node_of_type (empty_heap :: unit heap) Array_type)) ! 0) \<le> 0
   \<and> try_at_index (snd (node_of_type (empty_heap :: unit heap) Array_type)) (Array_ptr 0) 0 = Terminate"
  using try_at_index_out_of_range_terminates
          [of 0 "snd (node_of_type (empty_heap :: unit heap) Array_type)" 0]
  by (simp add: make_shared_array_def empty_heap_def)

text \<open>
  The throwing accessor \<^verbatim>\<open>node::at(const size_t)\<close> tests the index first and reports
  \<^verbatim>\<open>key_not_found\<close> on the same input.
\<close>

lemma at_index_out_of_range_throws:
  "length (arrays_of h ! p) \<le> i \<Longrightarrow>
   at_index h (Array_ptr p) i = Throws (Luco_error Err_key_not_found)"
  by (simp add: at_index_def as_array_def throw_if_not_ok_def)

text \<open>
  Claim C3: \<^verbatim>\<open>value::stringify\<close> of a double is claimed to be the fixed-precision
  rendering with only its trailing zeros removed and at least one digit kept after the
  point. The stringification of a double is \<^verbatim>\<open>pop_zeros_at_the_end\<close> of
  \<^verbatim>\<open>std::to_string\<close>, and its loop goes on after the trailing zeros: on
  \<^verbatim>\<open>1.205000\<close> (the rendering of 1.205) it also removes the digit 5, on
  \<^verbatim>\<open>5.050000\<close> (5.05) the digits 05, and on \<^verbatim>\<open>10.000000\<close> (10.0) the point itself.
  The renderings of 5.0 and 5.5 come out as claimed.
\<close>

theorem stringify_double_removes_digits:
  "stringify to_string_double (set_state (A_floating d)) = pop_zeros_at_the_end (to_string_double d)
   \<and> pop_zeros_at_the_end ''1.205000'' = ''1.20''
   \<and> pop_zeros_at_the_end ''5.050000'' = ''5.0''
   \<and> pop_zeros_at_the_end ''10.000000'' = ''10''
   \<and> pop_zeros_at_the_end ''5.000000'' = ''5.0''
   \<and> pop_zeros_at_the_end ''5.500000'' = ''5.5''"
  by (simp add: stringify_def pop_zeros_at_the_end_def str_at_def)

text \<open>
  Claim C6: type inference is claimed to classify a lexeme without any digit, such as
  \<^verbatim>\<open>.\<close>, as a String. In the code \<^verbatim>\<open>is_number\<close> accepts the lone point as a
  float, and \<^verbatim>\<open>get_type\<close> then calls \<^verbatim>\<open>std::stod\<close> on it, which throws
  \<^verbatim>\<open>std::invalid_argument\<close>: no classification is returned.
\<close>

theorem get_type_dot_throws:
  "is_number ''.'' = Number_float \<and> get_type strtod ''.'' = Throws Std_invalid_argument"
  by (simp add: get_type_def is_null_def is_number_def isdigit_def stod_def)

text \<open>
  A lexeme of digits only is not classified either when the number does not fit
  \<^verbatim>\<open>int64_t\<close>: \<^verbatim>\<open>std::stoll\<close> throws.
\<close>

lemma get_type_long_integer_throws:
  "get_type strtod ''99999999999999999999'' = Throws Std_out_of_range"
  by (simp add: get_type_def is_null_def is_number_def isdigit_def stoll_def int_of_digits_def
      digit_val_def LLONG_MAX_def)

text \<open>
  On the other lexemes \<^verbatim>\<open>get_type\<close> classifies as the claim says, as long as the
  conversion of a number succeeds: Null for \<^verbatim>\<open>null\<close>, a Boolean for the four words,
  an Integer for digits only (when the number fits \<^verbatim>\<open>int64_t\<close>), a Double for digits
  with one point (when there is a digit and the number is in range), and a String
  otherwise.
\<close>

lemma isdigit_not_dot: "\<not> isdigit CHR ''.''"
  by (simp add: isdigit_def)

lemma is_number_all_of_fst:
  "fst (is_number_all_of s has_decimal) \<longleftrightarrow>
     (\<forall>c \<in> set s. isdigit c \<or> c = CHR ''.'') \<and>
     count_list s CHR ''.'' + (if has_decimal then 1 else 0) \<le> 1"
  by (induction s arbitrary: has_decimal) (auto simp: isdigit_not_dot)

lemma is_number_all_of_snd:
  "fst (is_number_all_of s has_decimal) \<Longrightarrow>
   snd (is_number_all_of s has_decimal) \<longleftrightarrow> has_decimal \<or> CHR ''.'' \<in> set s"
  by (induction s arbitrary: has_decimal) (auto simp: isdigit_not_dot split: if_splits)

lemma digits_no_dot: "\<forall>c \<in> set s. isdigit c \<Longrightarrow> CHR ''.'' \<notin> set s"
  using isdigit_not_dot by blast

lemma is_number_int_iff:
  "is_number s = Number_int \<longleftrightarrow> s \<noteq> [] \<and> (\<forall>c \<in> set s. isdigit c)"
proof
  assume int: "is_number s = Number_int"
  then have ne: "s \<noteq> []" and ok: "fst (is_number_all_of s False)"
    and nd: "\<not> snd (is_number_all_of s False)"
    by (auto simp: is_number_def split_beta split: if_splits)
  have "CHR ''.'' \<notin> set s" using is_number_all_of_snd [OF ok] nd by simp
  moreover have "\<forall>c \<in> set s. isdigit c \<or> c = CHR ''.''"
    using ok by (simp add: is_number_all_of_fst)
  ultimately show "s \<noteq> [] \<and> (\<forall>c \<in> set s. isdigit c)" using ne by blast
next
  assume a: "s \<noteq> [] \<and> (\<forall>c \<in> set s. isdigit c)"
  then have nodot: "CHR ''.'' \<notin> set s" using digits_no_dot by blast
  then have "count_list s CHR ''.'' = 0" by (simp add: count_list_0_iff)
  then have ok: "fst (is_number_all_of s False)" using a by (simp add: is_number_all_of_fst)
  then have "\<not> snd (is_number_all_of s False)"
    using is_number_all_of_snd [OF ok] nodot by simp
  then show "is_number s = Number_int" using a ok by (simp add: is_number_def split_beta)
qed

lemma is_number_float_iff:
  "is_number s = Number_float \<longleftrightarrow>
     s \<noteq> [] \<and> (\<forall>c \<in> set s. isdigit c \<or> c = CHR ''.'') \<and> count_list s CHR ''.'' = 1"
proof (cases "fst (is_number_all_of s False)")
  case True
  then show ?thesis
    using is_number_all_of_snd [of s False] is_number_all_of_fst [of s False]
    by (auto simp: is_number_def split_beta count_list_0_iff le_Suc_eq)
next
  case False
  then show ?thesis
    using is_number_all_of_fst [of s False]
    by (auto simp: is_number_def split_beta)
qed


lemma takeWhile_all: "\<forall>c \<in> set s. P c \<Longrightarrow> takeWhile P s = s"
  by (induction s) auto

lemma get_type_null_iff: "get_type strtod s = Returns T_null \<longleftrightarrow> s = ''null''"
  by (cases "stoll s"; cases "stod strtod s")
     (auto simp: get_type_def is_null_def split: number_types.splits boolean_types.splits)

lemma get_type_bool_iff:
  "get_type strtod s = Returns (T_bool b) \<longleftrightarrow>
     (if b then s = ''true'' \<or> s = ''on'' else s = ''false'' \<or> s = ''off'')"
proof -
  have words: "is_number ''true'' = Number_none" "is_number ''on'' = Number_none"
    "is_number ''false'' = Number_none" "is_number ''off'' = Number_none"
    by (simp_all add: is_number_def isdigit_def)
  show ?thesis
    using words
    by (cases "stoll s"; cases "stod strtod s")
       (auto simp: get_type_def is_null_def is_boolean_def split: number_types.splits if_splits)
qed

lemma get_type_int_iff:
  "(\<exists>i. get_type strtod s = Returns (T_int64 i)) \<longleftrightarrow>
     s \<noteq> [] \<and> (\<forall>c \<in> set s. isdigit c) \<and> int_of_digits s \<le> LLONG_MAX"
proof (cases "is_number s = Number_int")
  case True
  then have digits: "s \<noteq> []" "\<forall>c \<in> set s. isdigit c" by (simp_all add: is_number_int_iff)
  then have conv: "stoll s =
      (if int_of_digits s > LLONG_MAX then Throws Std_out_of_range else Returns (int_of_digits s))"
    by (simp add: stoll_def Let_def takeWhile_all)
  have "s \<noteq> ''null''" using digits(2) by (auto simp: isdigit_def)
  then show ?thesis
    using True digits conv by (auto simp: get_type_def is_null_def)
next
  case False
  then have "\<not> (s \<noteq> [] \<and> (\<forall>c \<in> set s. isdigit c))" by (simp add: is_number_int_iff)
  moreover have "\<not> (\<exists>i. get_type strtod s = Returns (T_int64 i))"
    using False
    by (cases "stod strtod s")
       (auto simp: get_type_def split: number_types.splits boolean_types.splits)
  ultimately show ?thesis by blast
qed

lemma get_type_double_iff:
  "(\<exists>d. get_type strtod s = Returns (T_double d)) \<longleftrightarrow>
     is_number s = Number_float \<and> (\<exists>c \<in> set s. isdigit c) \<and> strtod s \<noteq> None"
proof (cases "is_number s = Number_float")
  case True
  then have "count_list s CHR ''.'' \<noteq> 0"
    by (simp add: is_number_float_iff)
  then have "CHR ''.'' \<in> set s"
    by (simp add: count_list_0_iff)
  then have "s \<noteq> ''null''" by auto
  then show ?thesis
    using True by (auto simp: get_type_def is_null_def stod_def split: option.splits)
next
  case False
  then have "\<not> (\<exists>d. get_type strtod s = Returns (T_double d))"
    by (cases "stoll s")
       (auto simp: get_type_def split: number_types.splits boolean_types.splits)
  then show ?thesis using False by blast
qed

lemma get_type_string_iff:
  "get_type strtod s = Returns (T_string x) \<longleftrightarrow>
     x = s \<and> s \<noteq> ''null'' \<and> is_number s = Number_none \<and> is_boolean s = Boolean_none"
  by (cases "stoll s"; cases "stod strtod s")
     (auto simp: get_type_def is_null_def split: number_types.splits boolean_types.splits)

text \<open>
  Claim C10: when both operands of \<^verbatim>\<open>+\<close> hold an Integer scalar, the result is a
  new node that holds a Double scalar, the sum of the two operands after each was
  converted to \<^verbatim>\<open>double\<close>; it does not hold an Integer, and the operands are left
  as they were.
\<close>

theorem plus_integers_is_double:
  assumes "p < length (values_of h)" and "q < length (values_of h)"
      and "values_of h ! p = set_state (A_integral x)"
      and "values_of h ! q = set_state (A_integral y)"
      and "node_plus of_int64 add_double h (Value_ptr p) (Value_ptr q) = r"
  shows "\<exists>c h'. r = Returns (Value_ptr c, h')
           \<and> values_of h' ! c = set_state (A_floating (add_double (of_int64 x) (of_int64 y)))
           \<and> value_is_double (values_of h' ! c) \<and> \<not> value_is_integer (values_of h' ! c)
           \<and> values_of h' ! p = values_of h ! p \<and> values_of h' ! q = values_of h ! q"
  using assms
  by (auto simp add: node_plus_def type_of_node_def plus_values_def value_as_number_def
      value_try_as_number_def value_is_number_def value_is_integer_def value_is_double_def
      throw_if_not_ok_def node_of_allowed_def make_shared_value_def nth_append)

theorem plus_integers_is_double_witness:
  "\<exists>c h'. node_plus (\<lambda>x. x) (+)
             \<lparr>values_of = [set_state (A_integral 2), set_state (A_integral 3)],
              arrays_of = [], objects_of = []\<rparr> (Value_ptr 0) (Value_ptr 1) = Returns (Value_ptr c, h')
          \<and> values_of h' ! c = set_state (A_floating (5 :: int))"
  using plus_integers_is_double
          [of 0 "\<lparr>values_of = [set_state (A_integral 2), set_state (A_integral 3)],
                   arrays_of = [], objects_of = []\<rparr>" 1 2 3 "\<lambda>x. x" "(+)", OF _ _ _ _ refl]
  by simp blast

section \<open>Properties of the document tree\<close>

subsection \<open>Stores that only grow\<close>

lemma take_eq_length_le:
  assumes "take (length ys) xs = ys"
  shows "length ys \<le> length xs"
proof -
  have "length (take (length ys) xs) = length ys" using assms by simp
  then show ?thesis by simp
qed

lemma take_eq_nth:
  assumes "take (length ys) xs = ys" and "p < length ys"
  shows "xs ! p = ys ! p"
proof -
  have "take (length ys) xs ! p = xs ! p" using assms(2) by simp
  then show ?thesis using assms(1) by simp
qed

lemma keeps_refl: "keeps h h"
  by (simp add: keeps_def)

lemma keeps_lengths:
  assumes "keeps h0 h"
  shows "length (values_of h0) \<le> length (values_of h)"
    and "length (arrays_of h0) \<le> length (arrays_of h)"
    and "length (objects_of h0) \<le> length (objects_of h)"
  using assms by (auto simp: keeps_def dest: take_eq_length_le)

lemma keeps_nth:
  assumes "keeps h0 h"
  shows "p < length (values_of h0) \<Longrightarrow> values_of h ! p = values_of h0 ! p"
    and "p < length (arrays_of h0) \<Longrightarrow> arrays_of h ! p = arrays_of h0 ! p"
    and "p < length (objects_of h0) \<Longrightarrow> objects_of h ! p = objects_of h0 ! p"
  using assms by (auto simp: keeps_def intro: take_eq_nth)

lemma keeps_make_shared_value: "keeps h0 h \<Longrightarrow> keeps h0 (snd (make_shared_value h v))"
  by (frule keeps_lengths(1)) (simp add: keeps_def make_shared_value_def)

lemma keeps_make_shared_array: "keeps h0 h \<Longrightarrow> keeps h0 (snd (make_shared_array h))"
  by (frule keeps_lengths(2)) (simp add: keeps_def make_shared_array_def)

lemma keeps_make_shared_object: "keeps h0 h \<Longrightarrow> keeps h0 (snd (make_shared_object h))"
  by (frule keeps_lengths(3)) (simp add: keeps_def make_shared_object_def)

lemma keeps_object_insert:
  "keeps h0 h \<Longrightarrow> length (objects_of h0) \<le> p \<Longrightarrow> keeps h0 (object_insert h p k n)"
  by (simp add: keeps_def object_insert_def)

lemma keeps_array_push_back:
  "keeps h0 h \<Longrightarrow> length (arrays_of h0) \<le> p \<Longrightarrow> keeps h0 (array_push_back h p n)"
  by (simp add: keeps_def array_push_back_def)

lemma keeps_node_of_allowed: "keeps h0 h \<Longrightarrow> keeps h0 (snd (node_of_allowed h a))"
  by (cases a) (simp_all add: node_of_allowed_def keeps_make_shared_value)

lemma keeps_insert_all:
  "keeps h0 h \<Longrightarrow> length (objects_of h0) \<le> p \<Longrightarrow> keeps h0 (insert_all h (Object_ptr p) kvs)"
proof (induction kvs arbitrary: h)
  case Nil
  then show ?case by simp
next
  case (Cons kv kvs)
  obtain key val where kv: "kv = (key, val)" by (cases kv)
  obtain n h1 where n: "node_of_allowed h val = (n, h1)" by (cases "node_of_allowed h val")
  have "keeps h0 h1" using keeps_node_of_allowed [OF Cons.prems(1), of val] n by simp
  then have "keeps h0 (object_insert h1 p key n)"
    using Cons.prems(2) by (rule keeps_object_insert)
  then show ?case
    using Cons.IH Cons.prems(2) kv n by (simp add: insert_node_def)
qed

lemma keeps_push_back_all:
  "keeps h0 h \<Longrightarrow> length (arrays_of h0) \<le> p \<Longrightarrow> keeps h0 (push_back_all h (Array_ptr p) vs)"
proof (induction vs arbitrary: h)
  case Nil
  then show ?case by simp
next
  case (Cons val vs)
  obtain n h1 where n: "node_of_allowed h val = (n, h1)" by (cases "node_of_allowed h val")
  have "keeps h0 h1" using keeps_node_of_allowed [OF Cons.prems(1), of val] n by simp
  then have "keeps h0 (array_push_back h1 p n)"
    using Cons.prems(2) by (rule keeps_array_push_back)
  then show ?case
    using Cons.IH Cons.prems(2) n by (simp add: push_back_node_def)
qed

lemma keeps_setting_allowed_node_type:
  assumes "keeps h0 h"
  shows "keeps h0 (snd (setting_allowed_node_type h v))"
proof (cases v)
  case (C_value_container vs)
  have "keeps h0 (snd (make_shared_array h))" using assms by (rule keeps_make_shared_array)
  moreover have "length (arrays_of h0) \<le> length (arrays_of h)" using assms by (rule keeps_lengths)
  ultimately show ?thesis
    using C_value_container keeps_push_back_all [of h0 "snd (make_shared_array h)" "length (arrays_of h)" vs]
    by (simp add: make_shared_array_def)
next
  case (C_key_value_container kvs)
  have "keeps h0 (snd (make_shared_object h))" using assms by (rule keeps_make_shared_object)
  moreover have "length (objects_of h0) \<le> length (objects_of h)" using assms by (rule keeps_lengths)
  ultimately show ?thesis
    using C_key_value_container keeps_insert_all [of h0 "snd (make_shared_object h)" "length (objects_of h)" kvs]
    by (simp add: make_shared_object_def)
next
  case (C_allowed a)
  then show ?thesis using assms by (simp add: keeps_node_of_allowed)
next
  case (C_variant a)
  then show ?thesis using assms by (simp add: keeps_node_of_allowed)
qed

lemma keeps_plus_insert_loop:
  "keeps h0 h \<Longrightarrow> length (objects_of h0) \<le> p \<Longrightarrow> keeps h0 (plus_insert_loop h (Object_ptr p) es)"
proof (induction es arbitrary: h)
  case Nil
  then show ?case by simp
next
  case (Cons e es)
  obtain key n where e: "e = (key, n)" by (cases e)
  have "keeps h0 (object_insert h p key n)"
    using Cons.prems by (rule keeps_object_insert)
  then show ?case using Cons.IH Cons.prems(2) e by (simp add: insert_node_def)
qed

lemma view_keeps:
  "closed h0 \<Longrightarrow> keeps h0 h \<Longrightarrow> live h0 n \<Longrightarrow> view d h n = view d h0 n"
proof (induction d arbitrary: n)
  case 0
  then show ?case by simp
next
  case (Suc d)
  show ?case
  proof (cases n)
    case (Value_ptr p)
    then show ?thesis using Suc.prems by (simp add: keeps_nth)
  next
    case (Array_ptr p)
    then have p: "p < length (arrays_of h0)" using Suc.prems(3) by simp
    then have same: "arrays_of h ! p = arrays_of h0 ! p" using Suc.prems(2) by (simp add: keeps_nth)
    have "\<forall>m \<in> set (arrays_of h0 ! p). live h0 m"
      using Suc.prems(1) p by (auto simp: closed_def)
    then have "map (view d h) (arrays_of h0 ! p) = map (view d h0) (arrays_of h0 ! p)"
      using Suc.IH Suc.prems(1,2) by (intro map_cong) auto
    then show ?thesis using Array_ptr same by simp
  next
    case (Object_ptr p)
    then have p: "p < length (objects_of h0)" using Suc.prems(3) by simp
    then have same: "objects_of h ! p = objects_of h0 ! p" using Suc.prems(2) by (simp add: keeps_nth)
    have "\<forall>m \<in> snd ` set (objects_of h0 ! p). live h0 m"
      using Suc.prems(1) p by (auto simp: closed_def)
    then have "map (\<lambda>(key, m). (key, view d h m)) (objects_of h0 ! p)
             = map (\<lambda>(key, m). (key, view d h0 m)) (objects_of h0 ! p)"
      using Suc.IH Suc.prems(1,2) by (intro map_cong) force+
    then show ?thesis using Object_ptr same by simp
  qed
qed

subsection \<open>The map of an object\<close>

lemma map_find_map_insert: "map_find (map_insert k v m) k = Some v"
  by (induction m) (auto simp: map_find_def)

lemma map_find_map_insert_other: "k' \<noteq> k \<Longrightarrow> map_find (map_insert k v m) k' = map_find m k'"
  by (induction m) (auto simp: map_find_def)

lemma keys_map_insert: "fst ` set (map_insert k v m) = insert k (fst ` set m)"
proof (induction m)
  case Nil
  then show ?case by simp
next
  case (Cons e m)
  obtain k' v' where e: "e = (k', v')" by (cases e)
  show ?case using Cons.IH e by (cases "k < k'"; cases "k = k'") auto
qed

lemma set_map_insert_fresh:
  "k \<notin> fst ` set m \<Longrightarrow> set (map_insert k v m) = insert (k, v) (set m)"
proof (induction m)
  case Nil
  then show ?case by simp
next
  case (Cons e m)
  obtain k' v' where e: "e = (k', v')" by (cases e)
  have "k \<noteq> k'" and "k \<notin> fst ` set m" using Cons.prems e by auto
  then show ?case using Cons.IH e by (cases "k < k'") auto
qed

lemma std_map_map_insert: "std_map m \<Longrightarrow> std_map (map_insert k v m)"
proof (induction m)
  case Nil
  then show ?case by (simp add: std_map_def)
next
  case (Cons e m)
  obtain k' v' where e: "e = (k', v')" by (cases e)
  have tail: "std_map m" using Cons.prems by (simp add: std_map_def)
  have above: "\<forall>x \<in> fst ` set m. k' < x" using Cons.prems e by (auto simp: std_map_def)
  show ?case
  proof (cases "k < k'")
    case True
    then show ?thesis using Cons.prems e above by (auto simp: std_map_def)
  next
    case False
    note nlt = this
    show ?thesis
    proof (cases "k = k'")
      case True
      then show ?thesis using Cons.prems e by (simp add: std_map_def)
    next
      case False
      then have "k' < k" using nlt by auto
      moreover have "std_map (map_insert k v m)" using Cons.IH tail by simp
      ultimately show ?thesis
        using e nlt False above keys_map_insert [of k v m]
        by (simp add: std_map_def)
    qed
  qed
qed

lemma map_insert_overwrite_keys:
  "std_map m \<Longrightarrow> k \<in> fst ` set m \<Longrightarrow> map fst (map_insert k v m) = map fst m"
proof (induction m)
  case Nil
  then show ?case by simp
next
  case (Cons e m)
  obtain k' v' where e: "e = (k', v')" by (cases e)
  have tail: "std_map m" using Cons.prems by (simp add: std_map_def)
  have above: "\<forall>x \<in> fst ` set m. k' < x" using Cons.prems e by (auto simp: std_map_def)
  show ?case
  proof (cases "k = k'")
    case True
    then show ?thesis using e by simp
  next
    case False
    then have "k \<in> fst ` set m" using Cons.prems(2) e by auto
    moreover from this have "k' < k" using above by blast
    ultimately show ?thesis using Cons.IH tail e False by auto
  qed
qed

lemma map_insert_commute:
  "k1 \<noteq> k2 \<Longrightarrow> map_insert k1 v1 (map_insert k2 v2 m) = map_insert k2 v2 (map_insert k1 v1 m)"
  by (induction m) auto

lemma insert_entries_Nil: "insert_entries [] m = m"
  by (simp add: insert_entries_def)

lemma insert_entries_Cons: "insert_entries ((k, n) # es) m = insert_entries es (map_insert k n m)"
  by (simp add: insert_entries_def)

lemma plus_insert_loop_eq:
  "c < length (objects_of h) \<Longrightarrow>
   plus_insert_loop h (Object_ptr c) es =
     h\<lparr>objects_of := (objects_of h)[c := insert_entries es (objects_of h ! c)]\<rparr>"
proof (induction es arbitrary: h)
  case Nil
  then show ?case by (simp add: insert_entries_Nil)
next
  case (Cons e es)
  obtain k n where e: "e = (k, n)" by (cases e)
  have len: "c < length (objects_of (object_insert h c k n))"
    using Cons.prems by (simp add: object_insert_def)
  show ?case
    using Cons.IH [OF len] Cons.prems e
    by (simp add: insert_node_def insert_entries_Cons object_insert_def)
qed

lemma map_insert_insert_entries:
  "k \<notin> fst ` set es \<Longrightarrow> map_insert k v (insert_entries es m) = insert_entries es (map_insert k v m)"
proof (induction es arbitrary: m)
  case Nil
  then show ?case by (simp add: insert_entries_Nil)
next
  case (Cons e es)
  obtain k' n where e: "e = (k', n)" by (cases e)
  have "k \<noteq> k'" and "k \<notin> fst ` set es" using Cons.prems e by auto
  then show ?case
    using Cons.IH [of "map_insert k' n m"] e
    by (simp add: insert_entries_Cons map_insert_commute [of k k'])
qed

lemma insert_entries_commute:
  "fst ` set as \<inter> fst ` set bs = {} \<Longrightarrow>
   insert_entries bs (insert_entries as m) = insert_entries as (insert_entries bs m)"
proof (induction as arbitrary: m)
  case Nil
  then show ?case by (simp add: insert_entries_Nil)
next
  case (Cons e as)
  obtain k n where e: "e = (k, n)" by (cases e)
  have k: "k \<notin> fst ` set bs" and rest: "fst ` set as \<inter> fst ` set bs = {}"
    using Cons.prems e by auto
  show ?case
    using Cons.IH [OF rest, of "map_insert k n m"] e
    by (simp add: insert_entries_Cons map_insert_insert_entries [OF k])
qed

lemma keys_insert_entries: "fst ` set (insert_entries es m) = fst ` set es \<union> fst ` set m"
proof (induction es arbitrary: m)
  case Nil
  then show ?case by (simp add: insert_entries_Nil)
next
  case (Cons e es)
  obtain k n where e: "e = (k, n)" by (cases e)
  show ?case using Cons.IH [of "map_insert k n m"] e
    by (simp add: insert_entries_Cons keys_map_insert)
qed

lemma set_insert_entries:
  "distinct (map fst es) \<Longrightarrow> fst ` set es \<inter> fst ` set m = {} \<Longrightarrow>
   set (insert_entries es m) = set es \<union> set m"
proof (induction es arbitrary: m)
  case Nil
  then show ?case by (simp add: insert_entries_Nil)
next
  case (Cons e es)
  obtain k n where e: "e = (k, n)" by (cases e)
  have fresh: "k \<notin> fst ` set m" using Cons.prems(2) e by auto
  have d: "distinct (map fst es)" and k: "k \<notin> fst ` set es" using Cons.prems(1) e by auto
  have "fst ` set es \<inter> fst ` set (map_insert k n m) = {}"
    using Cons.prems(2) k e by (auto simp: keys_map_insert)
  then have "set (insert_entries es (map_insert k n m)) = set es \<union> set (map_insert k n m)"
    using Cons.IH d by blast
  then show ?case using e fresh by (simp add: insert_entries_Cons set_map_insert_fresh)
qed

lemma std_map_insert_entries: "std_map m \<Longrightarrow> std_map (insert_entries es m)"
proof (induction es arbitrary: m)
  case Nil
  then show ?case by (simp add: insert_entries_Nil)
next
  case (Cons e es)
  obtain k n where e: "e = (k, n)" by (cases e)
  show ?case using Cons.IH [of "map_insert k n m"] Cons.prems e
    by (simp add: insert_entries_Cons std_map_map_insert)
qed

lemma std_map_distinct: "std_map m \<Longrightarrow> distinct (map fst m)"
  by (simp add: std_map_def strict_sorted_iff)

lemma node_plus_objects:
  assumes "p < length (objects_of h)" and "q < length (objects_of h)"
  shows "node_plus of_int64 add_double h (Object_ptr p) (Object_ptr q) =
           Returns (Object_ptr (length (objects_of h)),
                    h\<lparr>objects_of := objects_of h @
                         [insert_entries (objects_of h ! q) (insert_entries (objects_of h ! p) [])]\<rparr>)"
proof -
  let ?c = "length (objects_of h)"
  let ?h1 = "h\<lparr>objects_of := objects_of h @ [[]]\<rparr>"
  have c: "?c < length (objects_of ?h1)" by simp
  have l1: "plus_insert_loop ?h1 (Object_ptr ?c) (objects_of h ! p)
              = h\<lparr>objects_of := objects_of h @ [insert_entries (objects_of h ! p) []]\<rparr>"
    using plus_insert_loop_eq [OF c, of "objects_of h ! p"] by simp
  let ?h2 = "h\<lparr>objects_of := objects_of h @ [insert_entries (objects_of h ! p) []]\<rparr>"
  have c2: "?c < length (objects_of ?h2)" by simp
  have l2: "plus_insert_loop ?h2 (Object_ptr ?c) (objects_of h ! q)
              = h\<lparr>objects_of := objects_of h @
                    [insert_entries (objects_of h ! q) (insert_entries (objects_of h ! p) [])]\<rparr>"
    using plus_insert_loop_eq [OF c2, of "objects_of h ! q"] by simp
  show ?thesis
    using assms l1 l2
    by (simp add: node_plus_def type_of_node_def make_shared_object_def nth_append)
qed


text \<open>
  Claim C9: for object nodes \<open>a\<close> and \<open>b\<close> whose key sets are disjoint, \<open>a + b\<close> and
  \<open>b + a\<close> are structurally equal objects that contain exactly the union of the
  entries of \<open>a\<close> and \<open>b\<close>.
\<close>

theorem plus_objects_commutes:
  assumes "p < length (objects_of h)" and "q < length (objects_of h)"
      and "std_map (objects_of h ! p)" and "std_map (objects_of h ! q)"
      and "fst ` set (objects_of h ! p) \<inter> fst ` set (objects_of h ! q) = {}"
  shows "\<exists>c1 h1 c2 h2.
           node_plus of_int64 add_double h (Object_ptr p) (Object_ptr q) = Returns (Object_ptr c1, h1)
         \<and> node_plus of_int64 add_double h1 (Object_ptr q) (Object_ptr p) = Returns (Object_ptr c2, h2)
         \<and> objects_of h2 ! c1 = objects_of h2 ! c2
         \<and> structurally_equal h2 (Object_ptr c1) (Object_ptr c2)
         \<and> set (objects_of h2 ! c1) = set (objects_of h ! p) \<union> set (objects_of h ! q)
         \<and> std_map (objects_of h2 ! c1)"
proof -
  let ?a = "objects_of h ! p" and ?b = "objects_of h ! q"
  let ?c1 = "length (objects_of h)"
  let ?ab = "insert_entries ?b (insert_entries ?a [])"
  let ?ba = "insert_entries ?a (insert_entries ?b [])"
  let ?h1 = "h\<lparr>objects_of := objects_of h @ [?ab]\<rparr>"
  let ?h2 = "?h1\<lparr>objects_of := objects_of ?h1 @ [?ba]\<rparr>"
  have first: "node_plus of_int64 add_double h (Object_ptr p) (Object_ptr q) = Returns (Object_ptr ?c1, ?h1)"
    using assms(1,2) by (rule node_plus_objects)
  have p1: "p < length (objects_of ?h1)" and q1: "q < length (objects_of ?h1)"
    using assms(1,2) by simp_all
  have "node_plus of_int64 add_double ?h1 (Object_ptr q) (Object_ptr p) =
          Returns (Object_ptr (length (objects_of ?h1)),
                   ?h1\<lparr>objects_of := objects_of ?h1 @
                      [insert_entries (objects_of ?h1 ! p) (insert_entries (objects_of ?h1 ! q) [])]\<rparr>)"
    using q1 p1 by (rule node_plus_objects)
  then have second: "node_plus of_int64 add_double ?h1 (Object_ptr q) (Object_ptr p) =
      Returns (Object_ptr (Suc ?c1), ?h2)"
    using assms(1,2) by (simp add: nth_append)
  have same: "?ab = ?ba"
    using assms(5) by (rule insert_entries_commute)
  have cells: "objects_of ?h2 ! ?c1 = ?ab" "objects_of ?h2 ! Suc ?c1 = ?ba"
    by (simp_all add: nth_append)
  have eq: "objects_of ?h2 ! ?c1 = objects_of ?h2 ! Suc ?c1"
    using same cells by simp
  have "view d ?h2 (Object_ptr ?c1) = view d ?h2 (Object_ptr (Suc ?c1))" for d
    using eq by (cases d) simp_all
  then have str: "structurally_equal ?h2 (Object_ptr ?c1) (Object_ptr (Suc ?c1))"
    by (simp add: structurally_equal_def)
  have "set (insert_entries ?a []) = set ?a"
    using set_insert_entries [of ?a "[]"] assms(3) by (simp add: std_map_distinct)
  moreover have "fst ` set ?b \<inter> fst ` set (insert_entries ?a []) = {}"
    using assms(5) by (auto simp: keys_insert_entries)
  ultimately have "set ?ab = set ?a \<union> set ?b"
    using set_insert_entries [of ?b "insert_entries ?a []"] assms(4)
    by (auto simp: std_map_distinct)
  then have un: "set (objects_of ?h2 ! ?c1) = set ?a \<union> set ?b"
    using cells(1) by simp
  have "std_map ?ab"
    by (intro std_map_insert_entries) (simp add: std_map_def)
  then have st: "std_map (objects_of ?h2 ! ?c1)" using cells(1) by simp
  show ?thesis
    using first second eq str un st by blast
qed

theorem plus_objects_commutes_witness:
  "\<exists>c1 h1 c2 h2.
     node_plus (\<lambda>x. x) (+)
       \<lparr>values_of = [set_state (A_integral 1), set_state (A_integral 2 :: int allowed_value)],
        arrays_of = [],
        objects_of = [[(''a'', Value_ptr 0)], [(''b'', Value_ptr 1)]]\<rparr>
       (Object_ptr 0) (Object_ptr 1) = Returns (Object_ptr c1, h1)
   \<and> node_plus (\<lambda>x. x) (+) h1 (Object_ptr 1) (Object_ptr 0) = Returns (Object_ptr c2, h2)
   \<and> objects_of h2 ! c1 = objects_of h2 ! c2
   \<and> structurally_equal h2 (Object_ptr c1) (Object_ptr c2)
   \<and> set (objects_of h2 ! c1) = {(''a'', Value_ptr 0), (''b'', Value_ptr 1)}
   \<and> std_map (objects_of h2 ! c1)"
  using plus_objects_commutes [of 0
       "\<lparr>values_of = [set_state (A_integral 1), set_state (A_integral 2 :: int allowed_value)],
        arrays_of = [],
        objects_of = [[(''a'', Value_ptr 0)], [(''b'', Value_ptr 1)]]\<rparr>" 1 "\<lambda>x. x" "(+)"]
  by (simp add: std_map_def insert_commute)

text \<open>
  Claim C5, as amended: for object nodes \<open>a\<close> and \<open>b\<close> of a closed store, after
  \<open>c = a + b\<close>, replacing a child of \<open>c\<close> by \<^verbatim>\<open>c.at(k).set(x)\<close> leaves \<open>a\<close> and
  \<open>b\<close> unchanged: the assignment writes the entry of \<open>c\<close>'s own new object and cells
  allocated after the \<open>+\<close>, and every cell that existed before is as it was.
\<close>

theorem plus_shares_only_fresh_cells:
  assumes "closed h" and "p < length (objects_of h)" and "q < length (objects_of h)"
      and "node_plus of_int64 add_double h (Object_ptr p) (Object_ptr q) = Returns (c, h1)"
      and "at_key h1 c k = Returns r"
  shows "keeps h (set_ref h1 r x)
       \<and> (\<forall>d. view d (set_ref h1 r x) (Object_ptr p) = view d h (Object_ptr p))
       \<and> (\<forall>d. view d (set_ref h1 r x) (Object_ptr q) = view d h (Object_ptr q))"
proof -
  let ?c = "length (objects_of h)"
  have plus: "c = Object_ptr ?c"
    "h1 = h\<lparr>objects_of := objects_of h @
             [insert_entries (objects_of h ! q) (insert_entries (objects_of h ! p) [])]\<rparr>"
    using assms(4) node_plus_objects [OF assms(2,3), of of_int64 add_double] by simp_all
  have k1: "keeps h h1" using plus(2) by (simp add: keeps_def)
  have r: "r = Object_slot ?c k"
    using assms(5) plus(1)
    by (simp add: at_key_def as_object_def throw_if_not_ok_def split: if_splits)
  obtain n h2 where s: "setting_allowed_node_type h1 x = (n, h2)"
    by (cases "setting_allowed_node_type h1 x")
  have k2: "keeps h h2" using keeps_setting_allowed_node_type [OF k1, of x] s by simp
  have "set_ref h1 r x = object_insert h2 ?c k n"
    using r s by (simp add: set_ref_def)
  then have k3: "keeps h (set_ref h1 r x)"
    using keeps_object_insert [OF k2, of ?c k n] by simp
  show ?thesis
    using k3 view_keeps [OF assms(1) k3] assms(2,3) by simp
qed

theorem plus_shares_only_fresh_cells_witness:
  "keeps \<lparr>values_of = [], arrays_of = [], objects_of = [[(''k'', Object_ptr 1)], [], []]\<rparr>
     (set_ref \<lparr>values_of = [], arrays_of = [],
               objects_of = [[(''k'', Object_ptr 1)], [], [], [(''k'', Object_ptr 1)]]\<rparr>
        (Object_slot 3 ''k'') (C_allowed (N_scalar (A_bool True :: int allowed_value))))
   \<and> view 3 (set_ref \<lparr>values_of = [], arrays_of = [],
               objects_of = [[(''k'', Object_ptr 1)], [], [], [(''k'', Object_ptr 1)]]\<rparr>
        (Object_slot 3 ''k'') (C_allowed (N_scalar (A_bool True :: int allowed_value)))) (Object_ptr 0)
       = Tree_object [(''k'', Tree_object [])]"
  using plus_shares_only_fresh_cells [of
      "\<lparr>values_of = [], arrays_of = [], objects_of = [[(''k'', Object_ptr 1)], [], []]\<rparr>"
      0 2 "\<lambda>x. x" "(+)" "Object_ptr 3"
      "\<lparr>values_of = [], arrays_of = [],
        objects_of = [[(''k'', Object_ptr 1)], [], [], [(''k'', Object_ptr 1)]]\<rparr>"
      "''k''" "Object_slot 3 ''k''" "C_allowed (N_scalar (A_bool True :: int allowed_value))"]
  by (simp add: closed_def node_plus_def type_of_node_def make_shared_object_def insert_node_def
      object_insert_def at_key_def as_object_def throw_if_not_ok_def map_find_def
      numeral_3_eq_3)

text \<open>
  Claim C5 as stated also says that the tree produced by \<open>+\<close> shares no mutable state
  with its operands. It does: each child of \<open>c\<close> is the very object, array or value
  that the child of \<open>a\<close> or \<open>b\<close> is. Here \<open>a\<close> has one entry, an empty object under
  the key \<^verbatim>\<open>k\<close>, and \<open>b\<close> is empty; after \<open>c = a + b\<close>, inserting the key \<^verbatim>\<open>z\<close>
  into \<^verbatim>\<open>c.at("k")\<close> puts \<^verbatim>\<open>z\<close> into \<^verbatim>\<open>a.at("k")\<close>.
\<close>

theorem plus_shares_children_counterexample:
  "node_plus (\<lambda>x. x) (+)
     \<lparr>values_of = ([] :: int value list), arrays_of = [],
      objects_of = [[(''k'', Object_ptr 1)], [], []]\<rparr> (Object_ptr 0) (Object_ptr 2)
     = Returns (Object_ptr 3,
         \<lparr>values_of = [], arrays_of = [],
          objects_of = [[(''k'', Object_ptr 1)], [], [], [(''k'', Object_ptr 1)]]\<rparr>)
   \<and> at_key \<lparr>values_of = ([] :: int value list), arrays_of = [],
          objects_of = [[(''k'', Object_ptr 1)], [], [], [(''k'', Object_ptr 1)]]\<rparr>
        (Object_ptr 3) ''k'' = Returns (Object_slot 3 ''k'')
   \<and> read_ref \<lparr>values_of = ([] :: int value list), arrays_of = [],
          objects_of = [[(''k'', Object_ptr 1)], [], [], [(''k'', Object_ptr 1)]]\<rparr>
        (Object_slot 3 ''k'') = Some (Object_ptr 1)
   \<and> node_insert \<lparr>values_of = ([] :: int value list), arrays_of = [],
          objects_of = [[(''k'', Object_ptr 1)], [], [], [(''k'', Object_ptr 1)]]\<rparr>
        (Object_ptr 1) ''z'' (C_allowed (N_scalar (A_bool True)))
     = (Inr (Object_slot 1 ''z''),
        \<lparr>values_of = [set_state (A_bool True)], arrays_of = [],
         objects_of = [[(''k'', Object_ptr 1)], [(''z'', Value_ptr 0)], [], [(''k'', Object_ptr 1)]]\<rparr>)
   \<and> view 3 \<lparr>values_of = ([] :: int value list), arrays_of = [],
          objects_of = [[(''k'', Object_ptr 1)], [], []]\<rparr> (Object_ptr 0)
       = Tree_object [(''k'', Tree_object [])]
   \<and> view 3 \<lparr>values_of = [set_state (A_bool True) :: int value], arrays_of = [],
         objects_of = [[(''k'', Object_ptr 1)], [(''z'', Value_ptr 0)], [], [(''k'', Object_ptr 1)]]\<rparr>
        (Object_ptr 0)
       = Tree_object [(''k'', Tree_object [(''z'', Tree_value (set_state (A_bool True)))])]
   \<and> view 3 \<lparr>values_of = [set_state (A_bool True) :: int value], arrays_of = [],
         objects_of = [[(''k'', Object_ptr 1)], [(''z'', Value_ptr 0)], [], [(''k'', Object_ptr 1)]]\<rparr>
        (Object_ptr 0)
       \<noteq> view 3 \<lparr>values_of = ([] :: int value list), arrays_of = [],
          objects_of = [[(''k'', Object_ptr 1)], [], []]\<rparr> (Object_ptr 0)"
  by (simp add: node_plus_def type_of_node_def make_shared_object_def insert_node_def
      object_insert_def at_key_def as_object_def throw_if_not_ok_def map_find_def
      node_insert_def node_of_allowed_def make_shared_value_def numeral_3_eq_3)

subsection \<open>What an insertion stores\<close>

lemma node_holds_values:
  "node_holds h a n \<Longrightarrow> values_of h' = values_of h @ vs \<Longrightarrow> node_holds h' a n"
  by (cases a; cases n) (auto simp: nth_append)

lemma node_holds_view: "node_holds h a n \<Longrightarrow> view d h n = tree_of_allowed d h a"
  by (cases d; cases a; cases n) auto

lemma node_of_allowed_holds:
  assumes "node_of_allowed h a = (n, h1)"
  shows "node_holds h1 a n \<and> (\<exists>vs. values_of h1 = values_of h @ vs)
       \<and> arrays_of h1 = arrays_of h \<and> objects_of h1 = objects_of h"
  using assms by (cases a) (auto simp: node_of_allowed_def make_shared_value_def)

lemma push_back_all_holds:
  "c < length (arrays_of h) \<Longrightarrow>
   \<exists>vs ns. values_of (push_back_all h (Array_ptr c) xs) = values_of h @ vs
     \<and> arrays_of (push_back_all h (Array_ptr c) xs) = (arrays_of h)[c := arrays_of h ! c @ ns]
     \<and> objects_of (push_back_all h (Array_ptr c) xs) = objects_of h
     \<and> list_all2 (node_holds (push_back_all h (Array_ptr c) xs)) xs ns"
proof (induction xs arbitrary: h)
  case Nil
  then show ?case by simp
next
  case (Cons a xs)
  obtain n h1 where n: "node_of_allowed h a = (n, h1)" by (cases "node_of_allowed h a")
  from node_of_allowed_holds [OF n] obtain vs1 where
    h1: "node_holds h1 a n" "values_of h1 = values_of h @ vs1"
        "arrays_of h1 = arrays_of h" "objects_of h1 = objects_of h" by blast
  let ?h2 = "array_push_back h1 c n"
  let ?R = "push_back_all ?h2 (Array_ptr c) xs"
  have step: "push_back_all h (Array_ptr c) (a # xs) = ?R"
    using n by (simp add: push_back_node_def)
  have c2: "c < length (arrays_of ?h2)" using Cons.prems h1(3) by (simp add: array_push_back_def)
  from Cons.IH [OF c2] obtain vs ns where
    R: "values_of ?R = values_of ?h2 @ vs"
       "arrays_of ?R = (arrays_of ?h2)[c := arrays_of ?h2 ! c @ ns]"
       "objects_of ?R = objects_of ?h2"
       "list_all2 (node_holds ?R) xs ns" by blast
  have v: "values_of ?R = values_of h @ (vs1 @ vs)"
    using R(1) h1(2) by (simp add: array_push_back_def)
  have a': "arrays_of ?R = (arrays_of h)[c := arrays_of h ! c @ (n # ns)]"
    using R(2) h1(3) Cons.prems by (simp add: array_push_back_def)
  have o: "objects_of ?R = objects_of h" using R(3) h1(4) by (simp add: array_push_back_def)
  have "values_of ?R = values_of h1 @ vs" using R(1) by (simp add: array_push_back_def)
  then have "node_holds ?R a n" using h1(1) node_holds_values by blast
  then have l: "list_all2 (node_holds ?R) (a # xs) (n # ns)" using R(4) by simp
  show ?case unfolding step using v a' o l by blast
qed

lemma insert_all_holds:
  "c < length (objects_of h) \<Longrightarrow>
   \<exists>vs es. values_of (insert_all h (Object_ptr c) kvs) = values_of h @ vs
     \<and> arrays_of (insert_all h (Object_ptr c) kvs) = arrays_of h
     \<and> objects_of (insert_all h (Object_ptr c) kvs)
         = (objects_of h)[c := insert_entries es (objects_of h ! c)]
     \<and> map fst es = map fst kvs
     \<and> list_all2 (node_holds (insert_all h (Object_ptr c) kvs)) (map snd kvs) (map snd es)"
proof (induction kvs arbitrary: h)
  case Nil
  have "objects_of h = (objects_of h)[c := insert_entries [] (objects_of h ! c)]"
    by (simp add: insert_entries_def)
  then show ?case by (intro exI [of _ "[]"]) simp
next
  case (Cons kv kvs)
  obtain key a where kv: "kv = (key, a)" by (cases kv)
  obtain n h1 where n: "node_of_allowed h a = (n, h1)" by (cases "node_of_allowed h a")
  from node_of_allowed_holds [OF n] obtain vs1 where
    h1: "node_holds h1 a n" "values_of h1 = values_of h @ vs1"
        "arrays_of h1 = arrays_of h" "objects_of h1 = objects_of h" by blast
  let ?h2 = "object_insert h1 c key n"
  let ?R = "insert_all ?h2 (Object_ptr c) kvs"
  have step: "insert_all h (Object_ptr c) (kv # kvs) = ?R"
    using n kv by (simp add: insert_node_def)
  have c2: "c < length (objects_of ?h2)" using Cons.prems h1(4) by (simp add: object_insert_def)
  from Cons.IH [OF c2] obtain vs es where
    R: "values_of ?R = values_of ?h2 @ vs"
       "arrays_of ?R = arrays_of ?h2"
       "objects_of ?R = (objects_of ?h2)[c := insert_entries es (objects_of ?h2 ! c)]"
       "map fst es = map fst kvs"
       "list_all2 (node_holds ?R) (map snd kvs) (map snd es)" by blast
  have v: "values_of ?R = values_of h @ (vs1 @ vs)"
    using R(1) h1(2) by (simp add: object_insert_def)
  have a': "arrays_of ?R = arrays_of h" using R(2) h1(3) by (simp add: object_insert_def)
  have o: "objects_of ?R = (objects_of h)[c := insert_entries ((key, n) # es) (objects_of h ! c)]"
    using R(3) h1(4) Cons.prems by (simp add: object_insert_def insert_entries_def)
  have "values_of ?R = values_of h1 @ vs" using R(1) by (simp add: object_insert_def)
  then have "node_holds ?R a n" using h1(1) node_holds_values by blast
  then have l: "list_all2 (node_holds ?R) (map snd (kv # kvs)) (map snd ((key, n) # es))"
    using R(5) kv by simp
  have f: "map fst ((key, n) # es) = map fst (kv # kvs)" using R(4) kv by simp
  show ?case unfolding step using v a' o l f by blast
qed

lemma map_map_insert:
  "map (\<lambda>(key, n). (key, f n)) (map_insert k v m) = map_insert k (f v) (map (\<lambda>(key, n). (key, f n)) m)"
  by (induction m) auto

lemma view_insert_entries:
  "map fst es = map fst kvs \<Longrightarrow> list_all2 (node_holds h) (map snd kvs) (map snd es) \<Longrightarrow>
   map (\<lambda>(key, n). (key, view d h n)) (insert_entries es m)
   = fold (\<lambda>(key, a). map_insert key (tree_of_allowed d h a)) kvs
       (map (\<lambda>(key, n). (key, view d h n)) m)"
proof (induction es arbitrary: kvs m)
  case Nil
  then show ?case by (simp add: insert_entries_def)
next
  case (Cons e es)
  then obtain kv kvs' where kvs: "kvs = kv # kvs'" by (cases kvs) auto
  obtain k n where e: "e = (k, n)" by (cases e)
  obtain k' a where kv: "kv = (k', a)" by (cases kv)
  have kk: "k' = k" and hold: "node_holds h a n" using Cons.prems kvs e kv by auto
  have rest: "map fst es = map fst kvs'" "list_all2 (node_holds h) (map snd kvs') (map snd es)"
    using Cons.prems kvs by auto
  have "insert_entries (e # es) m = insert_entries es (map_insert k n m)"
    using e by (simp add: insert_entries_def)
  then show ?case
    using Cons.IH [OF rest, of "map_insert k n m"] kvs kv kk e node_holds_view [OF hold, of d]
    by (simp add: map_map_insert)
qed

lemma view_holds_list:
  "list_all2 (node_holds h) xs ns \<Longrightarrow> map (view d h) ns = map (tree_of_allowed d h) xs"
  by (induction rule: list_all2_induct) (auto simp: node_holds_view)

lemma setting_allowed_node_type_view:
  assumes "setting_allowed_node_type h v = (n, h1)"
      and "p < length (objects_of h)"
      and "values_of h' = values_of h1" and "arrays_of h' = arrays_of h1"
      and "objects_of h' = (objects_of h1)[p := m]"
  shows "view d h' n = tree_of_argument d h' v"
proof (cases d)
  case 0
  then show ?thesis by simp
next
  case (Suc d')
  have same: "node_holds h1 a x \<Longrightarrow> node_holds h' a x" for a x
    using node_holds_values [of h1 a x h' "[]"] assms(3) by simp
  show ?thesis
  proof (cases v)
    case (C_allowed a)
    then have "node_holds h1 a n" using assms(1) node_of_allowed_holds by fastforce
    then show ?thesis using C_allowed Suc same node_holds_view by fastforce
  next
    case (C_variant a)
    then have "node_holds h1 a n" using assms(1) node_of_allowed_holds by fastforce
    then show ?thesis using C_variant Suc same node_holds_view by fastforce
  next
    case (C_value_container xs)
    let ?c = "length (arrays_of h)"
    let ?h0 = "snd (make_shared_array h)"
    have n: "n = Array_ptr ?c" and h1: "h1 = push_back_all ?h0 (Array_ptr ?c) xs"
      using assms(1) C_value_container by (auto simp: make_shared_array_def)
    have c: "?c < length (arrays_of ?h0)" by (simp add: make_shared_array_def)
    from push_back_all_holds [OF c, of xs] obtain vs ns where
      R: "arrays_of h1 = (arrays_of ?h0)[?c := arrays_of ?h0 ! ?c @ ns]"
         "list_all2 (node_holds h1) xs ns" unfolding h1 by blast
    have cell: "arrays_of h' ! ?c = ns"
      using R(1) assms(4) by (simp add: make_shared_array_def)
    have "list_all2 (node_holds h') xs ns"
      using R(2) same by (simp add: list_all2_mono)
    then show ?thesis
      using C_value_container Suc n cell by (simp add: view_holds_list)
  next
    case (C_key_value_container kvs)
    let ?c = "length (objects_of h)"
    let ?h0 = "snd (make_shared_object h)"
    have n: "n = Object_ptr ?c" and h1: "h1 = insert_all ?h0 (Object_ptr ?c) kvs"
      using assms(1) C_key_value_container by (auto simp: make_shared_object_def)
    have c: "?c < length (objects_of ?h0)" by (simp add: make_shared_object_def)
    from insert_all_holds [OF c, of kvs] obtain vs es where
      R: "objects_of h1 = (objects_of ?h0)[?c := insert_entries es (objects_of ?h0 ! ?c)]"
         "map fst es = map fst kvs"
         "list_all2 (node_holds h1) (map snd kvs) (map snd es)" unfolding h1 by blast
    have cell: "objects_of h' ! ?c = insert_entries es []"
      using R(1) assms(2,5) by (simp add: make_shared_object_def)
    have "list_all2 (node_holds h') (map snd kvs) (map snd es)"
      using R(3) same by (simp add: list_all2_mono)
    then show ?thesis
      using C_key_value_container Suc n cell view_insert_entries [OF R(2), of h' d' "[]"]
      by simp
  qed
qed

text \<open>
  Claim C8: for a node that holds an object, after \<^verbatim>\<open>insert(k, v)\<close> returned a
  reference, \<^verbatim>\<open>contains(k)\<close> is true and \<^verbatim>\<open>at(k)\<close> is structurally equal to
  the node built from \<open>v\<close>. The node under \<open>k\<close> unfolds, at every depth, to the tree
  that \<open>v\<close> stands for: the value of a scalar or of a \<^verbatim>\<open>class value\<close>, the
  elements of a sequence container in their order, the pairs of a key-value container,
  and for a node that very node. Every cell the store had before is unchanged but the
  object itself, whose other keys keep their nodes. A second insertion under the same key
  replaces the child by the tree of the second argument and leaves the keys of the
  object as they were.
\<close>

theorem insert_then_get:
  assumes "p < length (objects_of h)" and "std_map (objects_of h ! p)"
      and "setting_allowed_node_type h v = (n, h1)"
      and "node_insert h (Object_ptr p) k v = (r, h')"
      and "setting_allowed_node_type h' v2 = (n2, h2)"
      and "node_insert h' (Object_ptr p) k v2 = (r2, h'')"
  shows "r = Inr (Object_slot p k)
       \<and> contains h' (Object_ptr p) k
       \<and> at_key h' (Object_ptr p) k = Returns (Object_slot p k)
       \<and> read_ref h' (Object_slot p k) = Some n
       \<and> (\<exists>m. read_ref h' (Object_slot p k) = Some m \<and> structurally_equal h' m n)
       \<and> (\<forall>a d. v = C_allowed (N_scalar a) \<longrightarrow> view (Suc d) h' n = Tree_value (set_state a))
       \<and> (\<exists>m. read_ref h' (Object_slot p k) = Some m
              \<and> (\<forall>d. view d h' m = tree_of_argument d h' v)
              \<and> (\<forall>x. v = C_allowed (N_node x) \<or> v = C_variant (N_node x) \<longrightarrow> m = x))
       \<and> values_of h' = values_of h1 \<and> arrays_of h' = arrays_of h1
       \<and> (\<forall>q. q \<noteq> p \<longrightarrow> objects_of h' ! q = objects_of h1 ! q)
       \<and> take (length (values_of h)) (values_of h') = values_of h
       \<and> take (length (arrays_of h)) (arrays_of h') = arrays_of h
       \<and> (\<forall>q. q < length (objects_of h) \<and> q \<noteq> p \<longrightarrow> objects_of h' ! q = objects_of h ! q)
       \<and> (\<forall>k'. k' \<noteq> k \<longrightarrow> map_find (objects_of h' ! p) k' = map_find (objects_of h ! p) k')
       \<and> read_ref h'' (Object_slot p k) = Some n2
       \<and> (\<exists>m. read_ref h'' (Object_slot p k) = Some m
              \<and> (\<forall>d. view d h'' m = tree_of_argument d h'' v2))
       \<and> map fst (objects_of h'' ! p) = map fst (objects_of h' ! p)"
proof -
  have k1: "keeps h h1"
    using keeps_setting_allowed_node_type [OF keeps_refl, of h v] assms(3) by simp
  then have p1: "p < length (objects_of h1)" using assms(1) keeps_lengths(3) by fastforce
  have res: "r = Inr (Object_slot p k)" "h' = object_insert h1 p k n"
    using assms(3,4) by (simp_all add: node_insert_def)
  have cell: "objects_of h' ! p = map_insert k n (objects_of h1 ! p)"
    using res(2) p1 by (simp add: object_insert_def)
  have found: "map_find (objects_of h' ! p) k = Some n"
    using cell by (simp add: map_find_map_insert)
  have scalar: "view (Suc d) h' n = Tree_value (set_state a)" if "v = C_allowed (N_scalar a)" for a d
    using that assms(3) res(2)
    by (auto simp: node_of_allowed_def make_shared_value_def object_insert_def)
  have eq: "\<exists>m. read_ref h' (Object_slot p k) = Some m \<and> structurally_equal h' m n"
    using found by (simp add: structurally_equal_def)
  have tree: "view d h' n = tree_of_argument d h' v" for d
    using setting_allowed_node_type_view [OF assms(3) assms(1), of h'] res(2)
    by (simp add: object_insert_def)
  have same_node: "n = x" if "v = C_allowed (N_node x) \<or> v = C_variant (N_node x)" for x
    using that assms(3) by (auto simp: node_of_allowed_def)
  have content: "\<exists>m. read_ref h' (Object_slot p k) = Some m
      \<and> (\<forall>d. view d h' m = tree_of_argument d h' v)
      \<and> (\<forall>x. v = C_allowed (N_node x) \<or> v = C_variant (N_node x) \<longrightarrow> m = x)"
    using found tree same_node by simp
  have old: "objects_of h1 ! p = objects_of h ! p" using k1 assms(1) by (simp add: keeps_nth)
  have frame_v: "take (length (values_of h)) (values_of h') = values_of h"
    and frame_a: "take (length (arrays_of h)) (arrays_of h') = arrays_of h"
    using k1 res(2) by (simp_all add: keeps_def object_insert_def)
  have frame_o: "objects_of h' ! q = objects_of h ! q" if "q < length (objects_of h) \<and> q \<noteq> p" for q
    using that k1 res(2) by (simp add: keeps_nth object_insert_def)
  have others: "map_find (objects_of h' ! p) k' = map_find (objects_of h ! p) k'" if "k' \<noteq> k" for k'
    using that cell old by (simp add: map_find_map_insert_other)
  have sorted': "std_map (objects_of h' ! p)"
    using cell old assms(2) by (simp add: std_map_map_insert)
  have key': "k \<in> fst ` set (objects_of h' ! p)"
    using cell by (simp add: keys_map_insert)
  have p': "p < length (objects_of h')" using res(2) p1 by (simp add: object_insert_def)
  have k2: "keeps h' h2"
    using keeps_setting_allowed_node_type [OF keeps_refl, of h' v2] assms(5) by simp
  then have p2: "p < length (objects_of h2)" using p' keeps_lengths(3) by fastforce
  have same2: "objects_of h2 ! p = objects_of h' ! p" using k2 p' by (simp add: keeps_nth)
  have res2: "h'' = object_insert h2 p k n2"
    using assms(5,6) by (simp add: node_insert_def)
  have cell2: "objects_of h'' ! p = map_insert k n2 (objects_of h' ! p)"
    using res2 p2 same2 by (simp add: object_insert_def)
  have found2: "read_ref h'' (Object_slot p k) = Some n2"
    using cell2 by (simp add: map_find_map_insert)
  have tree2: "view d h'' n2 = tree_of_argument d h'' v2" for d
    using setting_allowed_node_type_view [OF assms(5) p', of h''] res2
    by (simp add: object_insert_def)
  have content2: "\<exists>m. read_ref h'' (Object_slot p k) = Some m
      \<and> (\<forall>d. view d h'' m = tree_of_argument d h'' v2)"
    using found2 tree2 by simp
  have keys2: "map fst (objects_of h'' ! p) = map fst (objects_of h' ! p)"
    using cell2 sorted' key' by (simp add: map_insert_overwrite_keys)
  have first: "r = Inr (Object_slot p k) \<and> contains h' (Object_ptr p) k
       \<and> at_key h' (Object_ptr p) k = Returns (Object_slot p k)
       \<and> read_ref h' (Object_slot p k) = Some n"
    using res(1) found by (simp add: contains_def at_key_def as_object_def throw_if_not_ok_def)
  have frame1: "values_of h' = values_of h1 \<and> arrays_of h' = arrays_of h1
       \<and> (\<forall>q. q \<noteq> p \<longrightarrow> objects_of h' ! q = objects_of h1 ! q)"
    using res(2) by (simp add: object_insert_def)
  show ?thesis
    using first eq scalar content frame1 frame_v frame_a frame_o others found2 content2 keys2
    by blast
qed

theorem insert_then_get_witness:
  "contains
     (snd (node_insert \<lparr>values_of = [], arrays_of = [], objects_of = [[]]\<rparr> (Object_ptr 0) ''k''
        (C_value_container
           [N_scalar (A_integral 1 :: unit allowed_value), N_scalar (A_integral 2),
            N_scalar (A_integral 3)])))
     (Object_ptr 0) ''k''
   \<and> view 3
       (snd (node_insert \<lparr>values_of = [], arrays_of = [], objects_of = [[]]\<rparr> (Object_ptr 0) ''k''
          (C_value_container
             [N_scalar (A_integral 1 :: unit allowed_value), N_scalar (A_integral 2),
              N_scalar (A_integral 3)])))
       (Object_ptr 0)
     = Tree_object
         [(''k'', Tree_array
            [Tree_value (set_state (A_integral 1)), Tree_value (set_state (A_integral 2)),
             Tree_value (set_state (A_integral 3))])]
   \<and> view 3
       (snd (node_insert
          (snd (node_insert \<lparr>values_of = [], arrays_of = [], objects_of = [[]]\<rparr> (Object_ptr 0) ''k''
             (C_value_container
                [N_scalar (A_integral 1 :: unit allowed_value), N_scalar (A_integral 2),
                 N_scalar (A_integral 3)])))
          (Object_ptr 0) ''k''
          (C_key_value_container
             [(''b'', N_scalar (A_bool True)), (''a'', N_node (Object_ptr 0)),
              (''b'', N_scalar A_null)])))
       (Object_ptr 0)
     = Tree_object
         [(''k'', Tree_object
            [(''a'', Tree_object [(''k'', Tree_cut)]), (''b'', Tree_value (set_state A_null))])]"
  using insert_then_get [of 0 "\<lparr>values_of = [], arrays_of = [], objects_of = [[]]\<rparr>"
      "C_value_container
         [N_scalar (A_integral 1 :: unit allowed_value), N_scalar (A_integral 2),
          N_scalar (A_integral 3)]"
      "Array_ptr 0"
      "\<lparr>values_of = [set_state (A_integral 1), set_state (A_integral 2), set_state (A_integral 3)],
        arrays_of = [[Value_ptr 0, Value_ptr 1, Value_ptr 2]], objects_of = [[]]\<rparr>"
      "''k''" "Inr (Object_slot 0 ''k'')"
      "\<lparr>values_of = [set_state (A_integral 1), set_state (A_integral 2), set_state (A_integral 3)],
        arrays_of = [[Value_ptr 0, Value_ptr 1, Value_ptr 2]],
        objects_of = [[(''k'', Array_ptr 0)]]\<rparr>"
      "C_key_value_container
         [(''b'', N_scalar (A_bool True)), (''a'', N_node (Object_ptr 0)),
          (''b'', N_scalar A_null)]"
      "Object_ptr 1"
      "\<lparr>values_of = [set_state (A_integral 1), set_state (A_integral 2), set_state (A_integral 3),
                     set_state (A_bool True), set_state A_null],
        arrays_of = [[Value_ptr 0, Value_ptr 1, Value_ptr 2]],
        objects_of = [[(''k'', Array_ptr 0)], [(''a'', Object_ptr 0), (''b'', Value_ptr 4)]]\<rparr>"
      "Inr (Object_slot 0 ''k'')"
      "\<lparr>values_of = [set_state (A_integral 1), set_state (A_integral 2), set_state (A_integral 3),
                     set_state (A_bool True), set_state A_null],
        arrays_of = [[Value_ptr 0, Value_ptr 1, Value_ptr 2]],
        objects_of = [[(''k'', Object_ptr 1)], [(''a'', Object_ptr 0), (''b'', Value_ptr 4)]]\<rparr>"]
  by (simp add: std_map_def node_insert_def node_of_allowed_def make_shared_value_def
      make_shared_array_def make_shared_object_def object_insert_def array_push_back_def
      push_back_node_def insert_node_def contains_def map_find_def numeral_3_eq_3)

section \<open>Properties of the parser\<close>

subsection \<open>More fuel does not change a result\<close>

lemma parse_line_mono:
  "parse_line fuel strtod data = Some r \<Longrightarrow> parse_line (fuel + k) strtod data = Some r"
  by (induction fuel arbitrary: data) (auto split: prod.splits parsed.splits if_splits)

lemma parse_chars_mono:
  "parse_chars fuel strtod raw_json data = Some r \<Longrightarrow>
   parse_chars (fuel + k) strtod raw_json data = Some r"
proof (induction raw_json arbitrary: data)
  case Nil
  then show ?case by simp
next
  case (Cons c raw_json)
  show ?case
  proof (cases "c = CHR 0x0A \<or> c = CHR '','' \<or> c = CHR ''}''")
    case False
    then show ?thesis using Cons by simp
  next
    case True
    let ?d = "data\<lparr>data_line := data_line data @ [c], data_i := 0\<rparr>"
    from Cons.prems True obtain res d2 where line: "parse_line fuel strtod ?d = Some (res, d2)"
      by (auto split: option.splits)
    then have line': "parse_line (fuel + k) strtod ?d = Some (res, d2)"
      by (rule parse_line_mono)
    show ?thesis
    proof (cases res)
      case Parsed
      then show ?thesis using Cons.prems Cons.IH True line line' by simp
    next
      case (Parse_failed e)
      then show ?thesis using Cons.prems True line line' by auto
    next
      case (Parse_thrown e)
      then show ?thesis using Cons.prems True line line' by auto
    qed
  qed
qed

lemma try_parse_mono:
  assumes "try_parse fuel strtod raw_json = Some r" and "fuel \<le> fuel'"
  shows "try_parse fuel' strtod raw_json = Some r"
proof -
  obtain k where k: "fuel' = fuel + k" using assms(2) by (auto simp: le_iff_add)
  obtain res d where p: "parse_chars fuel strtod raw_json initial_data = Some (res, d)"
    using assms(1) by (auto simp: try_parse_def split: option.splits)
  then have "parse_chars fuel' strtod raw_json initial_data = Some (res, d)"
    unfolding k by (rule parse_chars_mono)
  then show ?thesis using assms(1) p by (simp add: try_parse_def)
qed

subsection \<open>Parsing concrete documents\<close>

lemmas parser_defs =
  fault_now_def cpp_assert_def special_chars_def cur_def hierarchy_top_def need_hierarchy_def keys_top_def need_keys_def
  set_keys_top_def keys_pop_def luco_objs_pop_def top_node_def is_escaped_def delimiter_def
  is_empty_def is_newline_def is_empty_newline_def handle_is_def register_token_def
  is_registered_token_def unregister_token_def strip_if_unqouted_string_def append_string_def
  expected_multi_line_string_def end_of_string_def handle_none_in_string_def
  handle_closing_in_string_def handle_empty_in_string_def comment_expected_def
  opening_bracket_expected_def luco_key_not_def luco_key_expected_def luco_value_not_def
  luco_value_expected_def comment_is_end_of_token_def comment_registered_def
  comment_handle_token_def top_insert_def top_push_back_def new_node_def insert_value_def
  opening_bracket_is_end_of_token_def opening_bracket_link_def opening_bracket_end_def
  opening_bracket_registered_def opening_bracket_handle_token_def luco_key_is_token_def
  luco_key_is_end_of_token_def luco_key_registered_def luco_key_handle_token_def
  luco_value_is_token_def luco_value_is_end_of_token_def luco_value_prepare_for_next_token_def
  luco_value_registered_def luco_value_handle_token_def closing_bracket_is_token_def
  closing_bracket_prepare_for_next_token_def closing_bracket_handle_token_def
  syntax_error_brackets_def syntax_error_strings_def syntax_error_def parsing_def
  initial_data_def try_parse_def
  str_at_def get_type_def is_null_def is_number_def is_boolean_def isdigit_def stod_def stoll_def
  int_of_digits_def digit_val_def LLONG_MAX_def
  node_insert_def node_push_back_def node_of_allowed_def make_shared_value_def
  make_shared_object_def make_shared_array_def object_insert_def array_push_back_def
  type_of_node_def empty_heap_def map_find_def

text \<open>
  The assertions take part in a run. In the document \<^verbatim>\<open>a {x}\<close> the closing bracket
  is met while the lexeme \<^verbatim>\<open>x\<close> is pending, and the assertion of
  \<^verbatim>\<open>closing_bracket::handle_token\<close> on \<^verbatim>\<open>data.raw_value\<close> fails.
\<close>

lemma try_parse_stops_at_assertion:
  "try_parse 100 strtod (''a {x}'' @ [CHR 0x0A]) = Some Assertion_fails"
  by (simp add: parser_defs numeral_eq_Suc)

text \<open>
  Claim C2: \<^verbatim>\<open>try_parse\<close> is claimed to return a result for every input and never
  to raise. For the document \<^verbatim>\<open>a = .\<close> the scalar-typing step takes the lexeme
  \<^verbatim>\<open>.\<close> for a float and \<^verbatim>\<open>std::stod\<close> throws; for an integer literal above
  \<^verbatim>\<open>LLONG_MAX\<close>, \<^verbatim>\<open>std::stoll\<close> throws. Nothing catches the exception, it leaves
  the \<^verbatim>\<open>noexcept\<close> function, and the program terminates.
\<close>

theorem try_parse_terminates_on_bad_number:
  "try_parse 100 strtod (''a = .'' @ [CHR 0x0A]) = Some Terminate
   \<and> try_parse 100 strtod (''a = 99999999999999999999'' @ [CHR 0x0A]) = Some Terminate"
  by (simp add: parser_defs numeral_eq_Suc)

text \<open>
  Claim C4: an input that ends inside an unquoted lexeme, with no newline after it, is
  claimed to parse as if the newline were there. \<^verbatim>\<open>try_parse(const std::string&)\<close>
  parses a line only when a newline, a comma or a closing bracket has been added to it,
  and returns without parsing what is left in \<^verbatim>\<open>data.line\<close>: \<^verbatim>\<open>key = value\<close>
  gives the empty object, and the same text followed by a newline gives one entry.
\<close>

theorem try_parse_drops_unterminated_line:
  "try_parse fuel strtod ''key = value'' =
     Some (Returns (Inr (Object_ptr 0, \<lparr>values_of = [], arrays_of = [], objects_of = [[]]\<rparr>)))
   \<and> try_parse 100 strtod (''key = value'' @ [CHR 0x0A]) =
     Some (Returns (Inr (Object_ptr 0,
       \<lparr>values_of = [set_state (A_string ''value'')], arrays_of = [],
        objects_of = [[(''key'', Value_ptr 0)]]\<rparr>)))
   \<and> view 2 \<lparr>values_of = [], arrays_of = [], objects_of = [[]]\<rparr> (Object_ptr 0) = Tree_object []
   \<and> view 2 \<lparr>values_of = [set_state (A_string ''value'')], arrays_of = [],
              objects_of = [[(''key'', Value_ptr 0)]]\<rparr> (Object_ptr 0)
       = Tree_object [(''key'', Tree_value (set_state (A_string ''value'')))]"
  by (simp add: parser_defs numeral_eq_Suc)

text \<open>The same holds of every input without a newline, a comma or a closing bracket.\<close>

lemma parse_chars_without_terminator:
  "\<forall>c \<in> set raw_json. c \<noteq> CHR 0x0A \<and> c \<noteq> CHR '','' \<and> c \<noteq> CHR ''}'' \<Longrightarrow>
   parse_chars fuel strtod raw_json data = Some (Parsed, data\<lparr>data_line := data_line data @ raw_json\<rparr>)"
  by (induction raw_json arbitrary: data) simp_all

lemma try_parse_without_terminator:
  assumes "\<forall>c \<in> set raw_json. c \<noteq> CHR 0x0A \<and> c \<noteq> CHR '','' \<and> c \<noteq> CHR ''}''"
  shows "try_parse fuel strtod raw_json =
     Some (Returns (Inr (Object_ptr 0, \<lparr>values_of = [], arrays_of = [], objects_of = [[]]\<rparr>)))"
  using parse_chars_without_terminator [OF assms, of fuel strtod initial_data]
  by (simp add: try_parse_def) (simp add: parser_defs)

text \<open>
  Claim C7: parsing the three lines \<^verbatim>\<open>name = "cat"\<close>, \<^verbatim>\<open>age = 5\<close> and
  \<^verbatim>\<open>smol = true\<close>, each ended by a newline, succeeds (with any fuel from 100 on) and
  yields an object node with exactly three entries: \<^verbatim>\<open>name\<close> is the string scalar
  \<^verbatim>\<open>cat\<close>, \<^verbatim>\<open>age\<close> the integer scalar 5 and \<^verbatim>\<open>smol\<close> the boolean scalar true.
\<close>

theorem try_parse_three_scalars:
  assumes "100 \<le> fuel"
  shows "try_parse fuel strtod
           (''name = '' @ [CHR 0x22] @ ''cat'' @ [CHR 0x22, CHR 0x0A] @ ''age = 5'' @ [CHR 0x0A] @
            ''smol = true'' @ [CHR 0x0A]) =
         Some (Returns (Inr (Object_ptr 0,
           \<lparr>values_of = [set_state (A_string ''cat''), set_state (A_integral 5), set_state (A_bool True)],
            arrays_of = [],
            objects_of = [[(''age'', Value_ptr 1), (''name'', Value_ptr 0), (''smol'', Value_ptr 2)]]\<rparr>)))
       \<and> view 2
           \<lparr>values_of = [set_state (A_string ''cat''), set_state (A_integral 5), set_state (A_bool True)],
            arrays_of = [],
            objects_of = [[(''age'', Value_ptr 1), (''name'', Value_ptr 0), (''smol'', Value_ptr 2)]]\<rparr>
           (Object_ptr 0) =
         Tree_object
           [(''age'', Tree_value \<lparr>val_value = V_int64 5, val_type = VT_integer\<rparr>),
            (''name'', Tree_value \<lparr>val_value = V_string ''cat'', val_type = VT_string\<rparr>),
            (''smol'', Tree_value \<lparr>val_value = V_bool True, val_type = VT_boolean\<rparr>)]"
proof -
  have "try_parse 100 strtod
           (''name = '' @ [CHR 0x22] @ ''cat'' @ [CHR 0x22, CHR 0x0A] @ ''age = 5'' @ [CHR 0x0A] @
            ''smol = true'' @ [CHR 0x0A]) =
         Some (Returns (Inr (Object_ptr 0,
           \<lparr>values_of = [set_state (A_string ''cat''), set_state (A_integral 5), set_state (A_bool True)],
            arrays_of = [],
            objects_of = [[(''age'', Value_ptr 1), (''name'', Value_ptr 0), (''smol'', Value_ptr 2)]]\<rparr>)))"
    by (simp add: parser_defs numeral_eq_Suc)
  then have "try_parse fuel strtod
           (''name = '' @ [CHR 0x22] @ ''cat'' @ [CHR 0x22, CHR 0x0A] @ ''age = 5'' @ [CHR 0x0A] @
            ''smol = true'' @ [CHR 0x0A]) =
         Some (Returns (Inr (Object_ptr 0,
           \<lparr>values_of = [set_state (A_string ''cat''), set_state (A_integral 5), set_state (A_bool True)],
            arrays_of = [],
            objects_of = [[(''age'', Value_ptr 1), (''name'', Value_ptr 0), (''smol'', Value_ptr 2)]]\<rparr>)))"
    using assms by (rule try_parse_mono)
  then show ?thesis by (simp add: numeral_2_eq_2)
qed

theorem try_parse_three_scalars_witness:
  "(100 :: nat) \<le> 100
   \<and> try_parse 100 (\<lambda>s. None :: unit option)
           (''name = '' @ [CHR 0x22] @ ''cat'' @ [CHR 0x22, CHR 0x0A] @ ''age = 5'' @ [CHR 0x0A] @
            ''smol = true'' @ [CHR 0x0A]) =
         Some (Returns (Inr (Object_ptr 0,
           \<lparr>values_of = [set_state (A_string ''cat''), set_state (A_integral 5), set_state (A_bool True)],
            arrays_of = [],
            objects_of = [[(''age'', Value_ptr 1), (''name'', Value_ptr 0), (''smol'', Value_ptr 2)]]\<rparr>)))"
proof -
  have fuel: "(100 :: nat) \<le> 100" by simp
  show ?thesis
    using fuel try_parse_three_scalars [OF fuel, of "\<lambda>s. None :: unit option", THEN conjunct1]
    by (rule conjI)
qed

end
